theory Spec2Isabelle
  imports Complex_Main "HOL-Library.Word" "HOL-Library.Sublist" "HOL-Library.List_Lexorder"
    "HOL-Library.Multiset"
begin

section \<open>Values of the host language\<close>

text \<open>
  The program is JavaScript. Its strings are sequences of UTF-16 code units, its numbers
  are IEEE doubles. A string is modelled as a list of 16-bit words. A number is modelled
  as the rational it denotes or one of the three special values. A numeric string is
  rounded to the nearest double; the durations that the pass adds are integers, and its
  sums are the sums of integers.
\<close>

type_synonym jschar = "16 word"
type_synonym jsstring = "jschar list"

definition js :: "string \<Rightarrow> jsstring" where
  "js s = map (\<lambda>c. word_of_nat (of_char c)) s"

datatype jsnum = NaN | PosInf | NegInf | Fin rat

datatype jsval =
    JUndefined
  | JNull
  | JBool bool
  | JNum jsnum
  | JStr jsstring
  | JArr "jsval list"
  | JObj "(jsstring \<times> jsval) list"

text \<open>
  A raw record is an object produced by \<open>JSON.parse\<close>. Only nine of its properties are
  ever read; a property that is absent reads as \<open>undefined\<close>.
\<close>

record rawrecord =
  master_metadata_track_name :: jsval
  master_metadata_album_artist_name :: jsval
  master_metadata_album_album_name :: jsval
  spotify_track_uri :: jsval
  episode_name :: jsval
  spotify_episode_uri :: jsval
  ts :: jsval
  ms_played :: jsval
  skipped :: jsval

subsection \<open>String primitives\<close>

text \<open>\<open>WhiteSpace\<close> and \<open>LineTerminator\<close> code points, the ones \<open>String.prototype.trim\<close> strips.\<close>

definition isWhiteSpace :: "jschar \<Rightarrow> bool" where
  "isWhiteSpace c =
     (c \<in> set [0x09, 0x0A, 0x0B, 0x0C, 0x0D, 0x20, 0xA0, 0x1680, 0x2028, 0x2029,
                0x202F, 0x205F, 0x3000, 0xFEFF]
      \<or> (0x2000 \<le> c \<and> c \<le> 0x200A))"

definition trim :: "jsstring \<Rightarrow> jsstring" where
  "trim s = rev (dropWhile isWhiteSpace (rev (dropWhile isWhiteSpace s)))"

text \<open>\<open>s.indexOf(pat)\<close>: the first position where \<open>pat\<close> occurs, or \<open>-1\<close>.\<close>

fun indexOfFrom :: "jsstring \<Rightarrow> jsstring \<Rightarrow> nat \<Rightarrow> int" where
  "indexOfFrom [] pat i = (if pat = [] then int i else -1)"
| "indexOfFrom (c # cs) pat i =
     (if prefix pat (c # cs) then int i else indexOfFrom cs pat (Suc i))"

definition indexOf :: "jsstring \<Rightarrow> jsstring \<Rightarrow> int" where
  "indexOf s pat = indexOfFrom s pat 0"

text \<open>\<open>s.slice(a, b)\<close> and \<open>s.slice(a)\<close> for non-negative arguments.\<close>

definition slice :: "jsstring \<Rightarrow> int \<Rightarrow> int \<Rightarrow> jsstring" where
  "slice s a b = take (nat b - nat a) (drop (nat a) s)"

definition sliceFrom :: "jsstring \<Rightarrow> int \<Rightarrow> jsstring" where
  "sliceFrom s a = drop (nat a) s"

text \<open>\<open>String(n)\<close> for an integer \<open>n\<close>.\<close>

fun natDigits :: "nat \<Rightarrow> jsstring" where
  "natDigits n =
     (if n < 10 then [word_of_nat (48 + n)]
      else natDigits (n div 10) @ [word_of_nat (48 + n mod 10)])"

declare natDigits.simps [simp del]

definition intToString :: "int \<Rightarrow> jsstring" where
  "intToString i = (if i < 0 then 0x2D # natDigits (nat (- i)) else natDigits (nat i))"

section \<open>Record classifier\<close>

definition cleanString :: "jsval \<Rightarrow> jsstring" where
  "cleanString v = (case v of JStr s \<Rightarrow> trim s | _ \<Rightarrow> [])"

text \<open>The empty string is the only falsy string.\<close>

definition isSongRecord :: "rawrecord \<Rightarrow> bool" where
  "isSongRecord r =
     (let trackName = cleanString (master_metadata_track_name r);
          artistName = cleanString (master_metadata_album_artist_name r);
          episodeName = cleanString (episode_name r);
          episodeUri = cleanString (spotify_episode_uri r)
      in if trackName = [] \<or> artistName = [] then False
         else if episodeName \<noteq> [] \<or> episodeUri \<noteq> [] then False
         else True)"

section \<open>Composite song keys\<close>

definition KEY_SEP :: jsstring where
  "KEY_SEP = [0x1F]"

definition makeSongKey :: "jsstring \<Rightarrow> jsstring \<Rightarrow> jsstring" where
  "makeSongKey song artist = song @ KEY_SEP @ artist"

definition splitSongKey :: "jsstring \<Rightarrow> jsstring \<times> jsstring" where
  "splitSongKey songKey =
     (let splitIndex = indexOf songKey KEY_SEP
      in if splitIndex < 0 then (songKey, [])
         else (slice songKey 0 splitIndex, sliceFrom songKey (splitIndex + 1)))"

text \<open>
  The text of a value when it is a string, the empty string otherwise: how a
  non-string or missing value is read.
\<close>

definition stringOrEmpty :: "jsval \<Rightarrow> jsstring" where
  "stringOrEmpty v = (case v of JStr s \<Rightarrow> s | _ \<Rightarrow> [])"

section \<open>Number coercion and the duration sanitizer\<close>

text \<open>
  \<open>Number(value)\<close>. A numeric string is read by the grammar of \<open>StringNumericLiteral\<close>:
  optional white space around an optionally signed decimal literal (digits, an optional
  fraction, an optional exponent), \<open>Infinity\<close>, or an unsigned hexadecimal, octal or binary
  integer literal. The empty string is \<open>0\<close>; anything else is \<open>NaN\<close>. The value of a
  literal is rounded to the nearest double.
\<close>

definition isDigit :: "jschar \<Rightarrow> bool" where
  "isDigit c = (0x30 \<le> c \<and> c \<le> 0x39)"

definition digitVal :: "jschar \<Rightarrow> int" where
  "digitVal c =
     (if 0x30 \<le> c \<and> c \<le> 0x39 then uint c - 0x30
      else if 0x61 \<le> c \<and> c \<le> 0x66 then uint c - 0x61 + 10
      else uint c - 0x41 + 10)"

definition digitsValue :: "int \<Rightarrow> jsstring \<Rightarrow> int" where
  "digitsValue base ds = foldl (\<lambda>a c. base * a + digitVal c) 0 ds"

definition isHexDigit :: "jschar \<Rightarrow> bool" where
  "isHexDigit c = (isDigit c \<or> (0x61 \<le> c \<and> c \<le> 0x66) \<or> (0x41 \<le> c \<and> c \<le> 0x46))"

definition isOctalDigit :: "jschar \<Rightarrow> bool" where
  "isOctalDigit c = (0x30 \<le> c \<and> c \<le> 0x37)"

definition isBinaryDigit :: "jschar \<Rightarrow> bool" where
  "isBinaryDigit c = (c = 0x30 \<or> c = 0x31)"

text \<open>
  The double nearest to a positive ratio of integers, ties to the even mantissa: the
  ratio is scaled by a power of two so that its integer part holds the 53 bits of the
  mantissa (fewer below the smallest normal number), and rounded there. A result beyond
  the largest double is an infinity.
\<close>

fun bitLength :: "nat \<Rightarrow> nat" where
  "bitLength n = (if n = 0 then 0 else Suc (bitLength (n div 2)))"

declare bitLength.simps [simp del]

definition pow2 :: "int \<Rightarrow> rat" where
  "pow2 e = (if 0 \<le> e then 2 ^ nat e else 1 / 2 ^ nat (- e))"

definition roundToDouble :: "int \<Rightarrow> int \<Rightarrow> jsnum" where
  "roundToDouble n d =
     (if n = 0 then Fin 0
      else
        (let k = int (bitLength (nat n)) - int (bitLength (nat d));
             e = (if (if 0 \<le> k then d * 2 ^ nat k \<le> n else d \<le> n * 2 ^ nat (- k))
                  then k else k - 1);
             x = max e (- 1022) - 52;
             a = (if 0 \<le> x then n else n * 2 ^ nat (- x));
             b = (if 0 \<le> x then d * 2 ^ nat x else d);
             f = a div b;
             up = (b < 2 * (a mod b) \<or> (b = 2 * (a mod b) \<and> odd f));
             m = (if up then f + 1 else f)
         in if 2 ^ 1024 \<le> of_int m * pow2 x then PosInf else Fin (of_int m * pow2 x)))"

definition negNum :: "jsnum \<Rightarrow> jsnum" where
  "negNum n = (case n of NaN \<Rightarrow> NaN | PosInf \<Rightarrow> NegInf | NegInf \<Rightarrow> PosInf | Fin q \<Rightarrow> Fin (- q))"

text \<open>The exponent part: nothing, or \<open>e\<close>/\<open>E\<close>, an optional sign and at least one digit.\<close>

definition exponentPart :: "jsstring \<Rightarrow> int option" where
  "exponentPart s =
     (case s of
        [] \<Rightarrow> Some 0
      | c # t \<Rightarrow>
          if c = 0x65 \<or> c = 0x45 then
            (case t of
               [] \<Rightarrow> None
             | d # u \<Rightarrow>
                 if d = 0x2D then (if u \<noteq> [] \<and> list_all isDigit u then Some (- digitsValue 10 u) else None)
                 else if d = 0x2B then (if u \<noteq> [] \<and> list_all isDigit u then Some (digitsValue 10 u) else None)
                 else if list_all isDigit t then Some (digitsValue 10 t) else None)
          else None)"

text \<open>An unsigned decimal literal, as a ratio of two integers.\<close>

definition strUnsignedDecimal :: "jsstring \<Rightarrow> (int \<times> int) option" where
  "strUnsignedDecimal s =
     (let ip = takeWhile isDigit s;
          r1 = dropWhile isDigit s;
          dot = (r1 \<noteq> [] \<and> hd r1 = 0x2E);
          fp = (if dot then takeWhile isDigit (tl r1) else []);
          r2 = (if dot then dropWhile isDigit (tl r1) else r1)
      in if ip = [] \<and> fp = [] then None
         else (case exponentPart r2 of
                 None \<Rightarrow> None
               | Some e \<Rightarrow>
                   (let scale = e - int (length fp);
                        mant = digitsValue 10 (ip @ fp)
                    in if 0 \<le> scale then Some (mant * 10 ^ nat scale, 1)
                       else Some (mant, 10 ^ nat (- scale)))))"

definition strDecimalLiteral :: "jsstring \<Rightarrow> jsnum" where
  "strDecimalLiteral s =
     (let neg = (s \<noteq> [] \<and> hd s = 0x2D);
          body = (if s \<noteq> [] \<and> (hd s = 0x2D \<or> hd s = 0x2B) then tl s else s)
      in if body = js ''Infinity'' then (if neg then NegInf else PosInf)
         else (case strUnsignedDecimal body of
                 None \<Rightarrow> NaN
               | Some (n, d) \<Rightarrow>
                   if neg then negNum (roundToDouble n d) else roundToDouble n d))"

definition nonDecimalIntegerLiteral :: "jsstring \<Rightarrow> int option" where
  "nonDecimalIntegerLiteral s =
     (case s of
        c0 # c1 # ds \<Rightarrow>
          if c0 = 0x30 \<and> ds \<noteq> [] then
            (if (c1 = 0x78 \<or> c1 = 0x58) \<and> list_all isHexDigit ds then Some (digitsValue 16 ds)
             else if (c1 = 0x6F \<or> c1 = 0x4F) \<and> list_all isOctalDigit ds then Some (digitsValue 8 ds)
             else if (c1 = 0x62 \<or> c1 = 0x42) \<and> list_all isBinaryDigit ds then Some (digitsValue 2 ds)
             else None)
          else None
      | _ \<Rightarrow> None)"

definition stringToNumber :: "jsstring \<Rightarrow> jsnum" where
  "stringToNumber s =
     (let t = trim s
      in if t = [] then Fin 0
         else (case nonDecimalIntegerLiteral t of
                 Some n \<Rightarrow> roundToDouble n 1
               | None \<Rightarrow> strDecimalLiteral t))"

text \<open>
  \<open>Number\<close> of an object first asks for a primitive. An object read from JSON has no
  function of its own, so an own property \<open>toString\<close> hides the inherited method and the
  conversion throws a \<open>TypeError\<close>; an array is joined from the texts of its elements
  and throws when one of them does.
\<close>

datatype jsError = TypeError

fun throwsTypeError :: "jsval \<Rightarrow> bool" where
  "throwsTypeError (JObj kvs) = list_ex (\<lambda>kv. fst kv = js ''toString'') kvs"
| "throwsTypeError (JArr xs) = list_ex throwsTypeError xs"
| "throwsTypeError v = False"

text \<open>
  What \<open>Number\<close> returns when it returns. An array goes through its text, the elements
  joined by commas: the empty array reads as \<open>0\<close>, an array of one element as that
  element's text read back, and an array of two or more elements as \<open>NaN\<close> (no numeric
  literal holds a comma). Any other object reads as \<open>NaN\<close>.
\<close>

fun numberValue :: "jsval \<Rightarrow> jsnum" where
  "numberValue JUndefined = NaN"
| "numberValue JNull = Fin 0"
| "numberValue (JBool b) = Fin (if b then 1 else 0)"
| "numberValue (JNum n) = n"
| "numberValue (JStr s) = stringToNumber s"
| "numberValue (JArr []) = Fin 0"
| "numberValue (JArr [JUndefined]) = Fin 0"
| "numberValue (JArr [JNull]) = Fin 0"
| "numberValue (JArr [JNum n]) = n"
| "numberValue (JArr [JStr s]) = stringToNumber s"
| "numberValue (JArr [JArr ys]) = numberValue (JArr ys)"
| "numberValue (JArr ys) = NaN"
| "numberValue (JObj kvs) = NaN"

definition toNumber :: "jsval \<Rightarrow> jsError + jsnum" where
  "toNumber v = (if throwsTypeError v then Inl TypeError else Inr (numberValue v))"

definition isFinite :: "jsnum \<Rightarrow> bool" where
  "isFinite n = (case n of Fin q \<Rightarrow> True | _ \<Rightarrow> False)"

text \<open>\<open>Math.round\<close> of a finite number: the nearest integer, a half going up.\<close>

definition mathRound :: "rat \<Rightarrow> int" where
  "mathRound q = \<lfloor>q + 1 / 2\<rfloor>"

definition sanitizeMs :: "jsval \<Rightarrow> jsError + int" where
  "sanitizeMs v =
     (case toNumber v of
        Inl err \<Rightarrow> Inl err
      | Inr num \<Rightarrow>
          (if \<not> isFinite num then Inr 0
           else (case num of
                   Fin q \<Rightarrow> if q < 0 then Inr 0 else Inr (mathRound q)
                 | _ \<Rightarrow> Inr 0)))"

text \<open>\<open>Boolean(value)\<close>.\<close>

definition toBoolean :: "jsval \<Rightarrow> bool" where
  "toBoolean v =
     (case v of
        JUndefined \<Rightarrow> False
      | JNull \<Rightarrow> False
      | JBool b \<Rightarrow> b
      | JNum n \<Rightarrow> n \<noteq> NaN \<and> n \<noteq> Fin 0
      | JStr s \<Rightarrow> s \<noteq> []
      | JArr xs \<Rightarrow> True
      | JObj kvs \<Rightarrow> True)"

section \<open>Insertion-ordered maps and frequency counters\<close>

text \<open>
  A \<open>Map\<close> is an association list in insertion order: setting a key that is present
  replaces its value in place, setting a new key appends it.
\<close>

fun mapSet :: "('k \<times> 'v) list \<Rightarrow> 'k \<Rightarrow> 'v \<Rightarrow> ('k \<times> 'v) list" where
  "mapSet [] k v = [(k, v)]"
| "mapSet ((k', v') # m) k v = (if k' = k then (k, v) # m else (k', v') # mapSet m k v)"

definition mapGet :: "('k \<times> 'v) list \<Rightarrow> 'k \<Rightarrow> 'v option" where
  "mapGet m k = map_of m k"

text \<open>\<open>m.get(k) || d\<close> for values that are objects or numbers (\<open>0 || 0\<close> is \<open>0\<close>).\<close>

definition getOr :: "('k \<times> 'v) list \<Rightarrow> 'k \<Rightarrow> 'v \<Rightarrow> 'v" where
  "getOr m k d = (case mapGet m k of None \<Rightarrow> d | Some v \<Rightarrow> v)"

definition incrementCounter :: "(jsstring \<times> int) list \<Rightarrow> jsstring \<Rightarrow> (jsstring \<times> int) list" where
  "incrementCounter counter v =
     (if v = [] then counter else mapSet counter v (getOr counter v 0 + 1))"

fun mostCommonLoop :: "(jsstring \<times> int) list \<Rightarrow> jsstring \<Rightarrow> int \<Rightarrow> jsstring" where
  "mostCommonLoop [] bestKey bestCount = bestKey"
| "mostCommonLoop ((key, keyCount) # rest) bestKey bestCount =
     (if keyCount > bestCount then mostCommonLoop rest key keyCount
      else mostCommonLoop rest bestKey bestCount)"

definition mostCommonCounterKey :: "(jsstring \<times> int) list \<Rightarrow> jsstring" where
  "mostCommonCounterKey counter = mostCommonLoop counter [] (- 1)"

section \<open>Comparison of strings by code units\<close>

text \<open>The relational operators on two strings compare them code unit by code unit.\<close>

fun strLess :: "jsstring \<Rightarrow> jsstring \<Rightarrow> bool" where
  "strLess [] [] = False"
| "strLess [] (y # ys) = True"
| "strLess (x # xs) [] = False"
| "strLess (x # xs) (y # ys) = (x < y \<or> (x = y \<and> strLess xs ys))"

definition strGreater :: "jsstring \<Rightarrow> jsstring \<Rightarrow> bool" where
  "strGreater a b = strLess b a"

text \<open>
  The values a frequency counter has seen, in order: \<open>incrementCounter\<close> is called once
  per accepted event of a song, with that event's album (or track URI).
\<close>

definition observe :: "jsstring list \<Rightarrow> (jsstring \<times> int) list" where
  "observe vs = foldl incrementCounter [] vs"

section \<open>Peak selector\<close>

text \<open>
  The rows of the monthly series (month key, total milliseconds, minutes, hours) and of
  the yearly series (year, total milliseconds, minutes, hours), and the two shapes of a
  peak. The display label of a month is computed from its key alone and is left out.
\<close>

datatype periodRow =
    MonthRow jsstring int rat rat
  | YearRow int int rat rat

datatype peak =
    MonthPeak jsstring int rat
  | YearPeak int int rat

fun rowTotalMs :: "periodRow \<Rightarrow> int" where
  "rowTotalMs (MonthRow m t mi h) = t"
| "rowTotalMs (YearRow y t mi h) = t"

text \<open>
  The two tie-breaker accessors, each followed by \<open>String\<close>: a property that a row does
  not have reads as \<open>undefined\<close>.
\<close>

fun rowMonth :: "periodRow \<Rightarrow> jsstring" where
  "rowMonth (MonthRow m t mi h) = m"
| "rowMonth (YearRow y t mi h) = js ''undefined''"

fun rowYearString :: "periodRow \<Rightarrow> jsstring" where
  "rowYearString (MonthRow m t mi h) = js ''undefined''"
| "rowYearString (YearRow y t mi h) = intToString y"

fun toPeak :: "periodRow \<Rightarrow> peak" where
  "toPeak (MonthRow m t mi h) = MonthPeak m t mi"
| "toPeak (YearRow y t mi h) = YearPeak y t mi"

fun pickPeakLoop :: "('r \<Rightarrow> int) \<Rightarrow> ('r \<Rightarrow> jsstring) \<Rightarrow> 'r \<Rightarrow> 'r list \<Rightarrow> 'r" where
  "pickPeakLoop valueAccessor tieBreakerAccessor best [] = best"
| "pickPeakLoop valueAccessor tieBreakerAccessor best (current # rest) =
     (let currentValue = valueAccessor current;
          bestValue = valueAccessor best
      in if currentValue > bestValue \<or>
            (currentValue = bestValue \<and>
             strGreater (tieBreakerAccessor current) (tieBreakerAccessor best))
         then pickPeakLoop valueAccessor tieBreakerAccessor current rest
         else pickPeakLoop valueAccessor tieBreakerAccessor best rest)"

definition pickPeak ::
  "periodRow list \<Rightarrow> (periodRow \<Rightarrow> int) \<Rightarrow> (periodRow \<Rightarrow> jsstring) \<Rightarrow> peak option" where
  "pickPeak rows valueAccessor tieBreakerAccessor =
     (case rows of
        [] \<Rightarrow> None
      | first # rest \<Rightarrow>
          Some (toPeak (pickPeakLoop valueAccessor tieBreakerAccessor first rest)))"


section \<open>The host: dates and collation\<close>

text \<open>
  What the program takes from its host and the language standard leaves to the
  implementation: the collation behind \<open>localeCompare\<close>, how \<open>new Date(string)\<close> reads a
  string that is not in the standard date-time format, and the offset of local time.
\<close>

record host =
  localeCompare :: "jsstring \<Rightarrow> jsstring \<Rightarrow> int"
  legacyDateParse :: "jsstring \<Rightarrow> int option"
  localTZA :: "int \<Rightarrow> int"

text \<open>
  A time value is a number of milliseconds since the epoch; \<open>None\<close> stands for the
  invalid date. The calendar is the proleptic Gregorian one of the language standard.
\<close>

definition msPerDay :: int where
  "msPerDay = 86400000"

definition daysInYear :: "int \<Rightarrow> int" where
  "daysInYear y =
     (if y mod 4 \<noteq> 0 then 365 else if y mod 100 \<noteq> 0 then 366
      else if y mod 400 \<noteq> 0 then 365 else 366)"

definition dayFromYear :: "int \<Rightarrow> int" where
  "dayFromYear y = 365 * (y - 1970) + (y - 1969) div 4 - (y - 1901) div 100 + (y - 1601) div 400"

definition dayOf :: "int \<Rightarrow> int" where
  "dayOf t = t div msPerDay"

text \<open>
  The year of a time value: the last year that starts on or before its day, found next
  to an estimate from the mean length of a year.
\<close>

definition yearFromTime :: "int \<Rightarrow> int" where
  "yearFromTime t =
     (let d = dayOf t;
          y0 = 1970 + (d * 10000) div 3652425
      in if dayFromYear (y0 + 1) \<le> d then y0 + 1
         else if dayFromYear y0 \<le> d then y0
         else y0 - 1)"

definition dayWithinYear :: "int \<Rightarrow> int" where
  "dayWithinYear t = dayOf t - dayFromYear (yearFromTime t)"

definition leapDay :: "int \<Rightarrow> int" where
  "leapDay y = (if daysInYear y = 366 then 1 else 0)"

definition monthFromTime :: "int \<Rightarrow> int" where
  "monthFromTime t =
     (let d = dayWithinYear t;
          leap = leapDay (yearFromTime t)
      in if d < 31 then 0
         else if d < 59 + leap then 1
         else if d < 90 + leap then 2
         else if d < 120 + leap then 3
         else if d < 151 + leap then 4
         else if d < 181 + leap then 5
         else if d < 212 + leap then 6
         else if d < 243 + leap then 7
         else if d < 273 + leap then 8
         else if d < 304 + leap then 9
         else if d < 334 + leap then 10
         else 11)"

definition daysBeforeMonth :: "int \<Rightarrow> int \<Rightarrow> int" where
  "daysBeforeMonth y mn =
     [0, 31, 59, 90, 120, 151, 181, 212, 243, 273, 304, 334] ! nat mn
       + (if 2 \<le> mn then leapDay y else 0)"

text \<open>\<open>MakeDay\<close> with a month counted from zero, \<open>MakeTime\<close>, \<open>MakeDate\<close> and \<open>TimeClip\<close>.\<close>

definition makeDay :: "int \<Rightarrow> int \<Rightarrow> int \<Rightarrow> int" where
  "makeDay y m dt =
     (let ym = y + m div 12;
          mn = m mod 12
      in dayFromYear ym + daysBeforeMonth ym mn + dt - 1)"

definition makeTime :: "int \<Rightarrow> int \<Rightarrow> int \<Rightarrow> int \<Rightarrow> int" where
  "makeTime hh mi ss ms = hh * 3600000 + mi * 60000 + ss * 1000 + ms"

definition makeDate :: "int \<Rightarrow> int \<Rightarrow> int" where
  "makeDate d tm = d * msPerDay + tm"

definition timeClip :: "int \<Rightarrow> int option" where
  "timeClip t = (if \<bar>t\<bar> > 8640000000000000 then None else Some t)"

text \<open>
  The date-time string format of the standard: \<open>YYYY\<close>, \<open>YYYY-MM\<close> or \<open>YYYY-MM-DD\<close> (the
  year may be a sign and six digits), alone or followed by \<open>THH:mm\<close>, \<open>THH:mm:ss\<close> or
  \<open>THH:mm:ss.sss\<close> and an optional \<open>Z\<close> or \<open>+HH:mm\<close>/\<open>-HH:mm\<close>. A date alone is UTC; a
  date and time without offset is local time.
\<close>

record isoFields =
  isoYear :: int
  isoMonth :: int
  isoDay :: int
  isoHasTime :: bool
  isoHour :: int
  isoMinute :: int
  isoSecond :: int
  isoMs :: int
  isoOffset :: "(int \<times> int \<times> int) option"

text \<open>Exactly \<open>n\<close> digits at the front of a string: their value and the rest.\<close>

definition digitsN :: "nat \<Rightarrow> jsstring \<Rightarrow> (int \<times> jsstring) option" where
  "digitsN n s =
     (if n \<le> length s \<and> list_all isDigit (take n s)
      then Some (digitsValue 10 (take n s), drop n s) else None)"

text \<open>A separator followed by exactly \<open>n\<close> digits, when the string starts with the separator.\<close>

definition sepDigits :: "jschar \<Rightarrow> nat \<Rightarrow> jsstring \<Rightarrow> (int \<times> jsstring) option" where
  "sepDigits c n s = (case s of [] \<Rightarrow> None | x # t \<Rightarrow> if x = c then digitsN n t else None)"

definition startsWith :: "jschar \<Rightarrow> jsstring \<Rightarrow> bool" where
  "startsWith c s = (s \<noteq> [] \<and> hd s = c)"

definition parseIsoYear :: "jsstring \<Rightarrow> (int \<times> jsstring) option" where
  "parseIsoYear s =
     (if startsWith 0x2B s then digitsN 6 (tl s)
      else if startsWith 0x2D s then
        (case digitsN 6 (tl s) of
           None \<Rightarrow> None
         | Some (y, r) \<Rightarrow> if y = 0 then None else Some (- y, r))
      else digitsN 4 s)"

text \<open>The offset: nothing, \<open>Z\<close>, or a sign, two digits of hours, a colon and two digits of minutes.\<close>

definition parseIsoOffset :: "jsstring \<Rightarrow> (int \<times> int \<times> int) option option" where
  "parseIsoOffset s =
     (if s = [] then Some None
      else if s = [0x5A] then Some (Some (1, 0, 0))
      else if startsWith 0x2B s \<or> startsWith 0x2D s then
        (case digitsN 2 (tl s) of
           None \<Rightarrow> None
         | Some (oh, r) \<Rightarrow>
             (case sepDigits 0x3A 2 r of
                None \<Rightarrow> None
              | Some (om, r') \<Rightarrow>
                  if r' = [] then Some (Some (if startsWith 0x2D s then - 1 else 1, oh, om))
                  else None))
      else None)"

definition parseIsoTime :: "isoFields \<Rightarrow> jsstring \<Rightarrow> isoFields option" where
  "parseIsoTime f s =
     (case digitsN 2 s of
        None \<Rightarrow> None
      | Some (hh, r1) \<Rightarrow>
          (case sepDigits 0x3A 2 r1 of
             None \<Rightarrow> None
           | Some (mi, r2) \<Rightarrow>
               (let sec = (if startsWith 0x3A r2 then sepDigits 0x3A 2 r2 else Some (0, r2))
                in case sec of
                     None \<Rightarrow> None
                   | Some (ss, r3) \<Rightarrow>
                       (let frac = (if startsWith 0x3A r2 \<and> startsWith 0x2E r3
                                    then sepDigits 0x2E 3 r3 else Some (0, r3))
                        in case frac of
                             None \<Rightarrow> None
                           | Some (ms, r4) \<Rightarrow>
                               (case parseIsoOffset r4 of
                                  None \<Rightarrow> None
                                | Some off \<Rightarrow>
                                    Some (f\<lparr>isoHasTime := True, isoHour := hh, isoMinute := mi,
                                            isoSecond := ss, isoMs := ms, isoOffset := off\<rparr>))))))"

definition parseIso :: "jsstring \<Rightarrow> isoFields option" where
  "parseIso s =
     (case parseIsoYear s of
        None \<Rightarrow> None
      | Some (y, r1) \<Rightarrow>
          (let mon = (if startsWith 0x2D r1 then sepDigits 0x2D 2 r1 else Some (1, r1))
           in case mon of
                None \<Rightarrow> None
              | Some (mo, r2) \<Rightarrow>
                  (let dom = (if startsWith 0x2D r1 \<and> startsWith 0x2D r2
                              then sepDigits 0x2D 2 r2 else Some (1, r2))
                   in case dom of
                        None \<Rightarrow> None
                      | Some (d, r3) \<Rightarrow>
                          (let f = \<lparr>isoYear = y, isoMonth = mo, isoDay = d, isoHasTime = False,
                                    isoHour = 0, isoMinute = 0, isoSecond = 0, isoMs = 0,
                                    isoOffset = None\<rparr>
                           in if r3 = [] then Some f
                              else if startsWith 0x54 r3 then parseIsoTime f (tl r3)
                              else None))))"

text \<open>
  The legal values of the fields: months 01 to 12, days 01 to 31, hours 00 to 24 (24
  only as \<open>24:00:00.000\<close>), minutes and seconds 00 to 59, and an offset of at most 23
  hours and 59 minutes. A day beyond the end of its month rolls over into the next month.
\<close>

definition isoLegal :: "isoFields \<Rightarrow> bool" where
  "isoLegal f =
     (1 \<le> isoMonth f \<and> isoMonth f \<le> 12 \<and> 1 \<le> isoDay f \<and> isoDay f \<le> 31 \<and>
      isoHour f \<le> 24 \<and> isoMinute f \<le> 59 \<and> isoSecond f \<le> 59 \<and>
      (isoHour f < 24 \<or> (isoMinute f = 0 \<and> isoSecond f = 0 \<and> isoMs f = 0)) \<and>
      (case isoOffset f of
         None \<Rightarrow> True
       | Some (sg, oh, om) \<Rightarrow> oh \<le> 23 \<and> om \<le> 59))"

definition isoTimeValue :: "host \<Rightarrow> isoFields \<Rightarrow> int option" where
  "isoTimeValue h f =
     (if \<not> isoLegal f then None
      else
        (let tv = makeDate (makeDay (isoYear f) (isoMonth f - 1) (isoDay f))
                    (makeTime (isoHour f) (isoMinute f) (isoSecond f) (isoMs f))
         in case isoOffset f of
              Some (sg, oh, om) \<Rightarrow> timeClip (tv - sg * (oh * 60 + om) * 60000)
            | None \<Rightarrow> if isoHasTime f then timeClip (tv - localTZA h tv) else timeClip tv))"

text \<open>\<open>new Date(s).getTime()\<close> for a string \<open>s\<close>.\<close>

definition dateParse :: "host \<Rightarrow> jsstring \<Rightarrow> int option" where
  "dateParse h s =
     (case parseIso s of
        Some f \<Rightarrow> isoTimeValue h f
      | None \<Rightarrow> (case legacyDateParse h s of None \<Rightarrow> None | Some t \<Rightarrow> timeClip t))"

section \<open>Timestamp parser\<close>

definition includesStr :: "jsstring \<Rightarrow> jsstring \<Rightarrow> bool" where
  "includesStr s pat = (0 \<le> indexOf s pat)"

text \<open>\<open>s.replace(pat, rep)\<close> with a string pattern: the first occurrence only.\<close>

definition replaceFirst :: "jsstring \<Rightarrow> jsstring \<Rightarrow> jsstring \<Rightarrow> jsstring" where
  "replaceFirst s pat rep =
     (let i = indexOf s pat
      in if i < 0 then s else take (nat i) s @ rep @ drop (nat i + length pat) s)"

definition endsWith :: "jsstring \<Rightarrow> jsstring \<Rightarrow> bool" where
  "endsWith s pat = (length pat \<le> length s \<and> drop (length s - length pat) s = pat)"

definition parseTimestamp :: "host \<Rightarrow> jsval \<Rightarrow> int option" where
  "parseTimestamp h v =
     (case v of
        JStr s \<Rightarrow>
          if trim s = [] then None
          else
            (case dateParse h s of
               Some date \<Rightarrow> Some date
             | None \<Rightarrow>
                 (let maybeIso = (if includesStr s (js ''T'') then s
                                  else replaceFirst s (js '' '') (js ''T''));
                      withZone = (if endsWith maybeIso (js ''Z'') then maybeIso
                                  else maybeIso @ js ''Z'')
                  in dateParse h withZone))
      | _ \<Rightarrow> None)"

definition padStart2 :: "jsstring \<Rightarrow> jsstring" where
  "padStart2 s = replicate (2 - length s) 0x30 @ s"

definition timestampToMonthKey :: "int \<Rightarrow> jsstring" where
  "timestampToMonthKey date =
     (let year = yearFromTime date;
          month = padStart2 (intToString (monthFromTime date + 1))
      in intToString year @ js ''-'' @ month)"

text \<open>
  The repair, said without the string primitives: a string with no \<open>T\<close> anywhere gets its
  first space replaced by \<open>T\<close>; the result gets a \<open>Z\<close> appended unless its last
  character is \<open>Z\<close>, whatever else it holds.
\<close>

definition lenientRepair :: "jsstring \<Rightarrow> jsstring" where
  "lenientRepair s =
     (let m = (if 0x54 \<in> set s then s
               else case dropWhile (\<lambda>c. c \<noteq> 0x20) s of
                      [] \<Rightarrow> s
                    | sp # rest \<Rightarrow> takeWhile (\<lambda>c. c \<noteq> 0x20) s @ 0x54 # rest)
      in if m \<noteq> [] \<and> last m = 0x5A then m else m @ [0x5A])"

text \<open>
  The repair as the specification words it: the first space is replaced by \<open>T\<close>, and a
  \<open>Z\<close> is appended if no zone marker is present, a zone marker being a final \<open>Z\<close> or a
  final \<open>+HH:mm\<close> or \<open>-HH:mm\<close>.
\<close>

definition hasZoneMarker :: "jsstring \<Rightarrow> bool" where
  "hasZoneMarker s =
     (endsWith s (js ''Z'') \<or>
      (6 \<le> length s \<and>
       (case drop (length s - 6) s of
          [sg, h1, h2, c, m1, m2] \<Rightarrow>
            (sg = 0x2B \<or> sg = 0x2D) \<and> isDigit h1 \<and> isDigit h2 \<and> c = 0x3A \<and>
            isDigit m1 \<and> isDigit m2
        | _ \<Rightarrow> False)))"

definition statedRepair :: "jsstring \<Rightarrow> jsstring" where
  "statedRepair s =
     (let m = replaceFirst s (js '' '') (js ''T'')
      in if hasZoneMarker m then m else m @ js ''Z'')"

section \<open>Aggregator\<close>

text \<open>
  The accumulator objects. The property names of the program are prefixed here, since
  several objects share them: \<open>se\<close> for a song entry, \<open>ae\<close> for an artist entry, \<open>me\<close> for
  a song's entry within one month.
\<close>

record songEntry =
  se_song :: jsstring
  se_artist :: jsstring
  se_playCount :: int
  se_skipCount :: int
  se_totalMs :: int
  se_albumCounter :: "(jsstring \<times> int) list"
  se_uriCounter :: "(jsstring \<times> int) list"

record artistEntry =
  ae_artist :: jsstring
  ae_playCount :: int
  ae_skipCount :: int
  ae_totalMs :: int

record monthSongEntry =
  me_playCount :: int
  me_totalMs :: int

text \<open>The fields read from one accepted record.\<close>

record event =
  ev_song :: jsstring
  ev_artist :: jsstring
  ev_album :: jsstring
  ev_uri :: jsstring
  ev_msPlayed :: int
  ev_skipped :: bool
  ev_timestamp :: int

record acc =
  songMap :: "(jsstring \<times> songEntry) list"
  artistMap :: "(jsstring \<times> artistEntry) list"
  monthlySongMap :: "(jsstring \<times> (jsstring \<times> monthSongEntry) list) list"
  monthlyMs :: "(jsstring \<times> int) list"
  yearlyMs :: "(int \<times> int) list"
  ignoredNonSong :: int
  ignoredBadTimestamp :: int
  songRecordsUsed :: int

definition initAcc :: acc where
  "initAcc = \<lparr> songMap = [], artistMap = [], monthlySongMap = [], monthlyMs = [],
               yearlyMs = [], ignoredNonSong = 0, ignoredBadTimestamp = 0,
               songRecordsUsed = 0 \<rparr>"

text \<open>
  The fields are read in the order of the program; reading the duration is the one step
  that can throw.
\<close>

definition normalize :: "rawrecord \<Rightarrow> int \<Rightarrow> jsError + event" where
  "normalize r timestamp =
     (let song = cleanString (master_metadata_track_name r);
          artist = cleanString (master_metadata_album_artist_name r);
          album = cleanString (master_metadata_album_album_name r);
          uri = cleanString (spotify_track_uri r)
      in case sanitizeMs (ms_played r) of
           Inl err \<Rightarrow> Inl err
         | Inr msPlayed \<Rightarrow>
             Inr \<lparr> ev_song = song, ev_artist = artist, ev_album = album, ev_uri = uri,
                   ev_msPlayed = msPlayed, ev_skipped = toBoolean (skipped r),
                   ev_timestamp = timestamp \<rparr>)"

definition skipInc :: "bool \<Rightarrow> int" where
  "skipInc b = (if b then 1 else 0)"

definition updateSong :: "event \<Rightarrow> songEntry \<Rightarrow> songEntry" where
  "updateSong e songEntry =
     songEntry\<lparr> se_playCount := se_playCount songEntry + 1,
                se_skipCount := se_skipCount songEntry + skipInc (ev_skipped e),
                se_totalMs := se_totalMs songEntry + ev_msPlayed e,
                se_albumCounter := incrementCounter (se_albumCounter songEntry) (ev_album e),
                se_uriCounter := incrementCounter (se_uriCounter songEntry) (ev_uri e) \<rparr>"

definition newSong :: "event \<Rightarrow> songEntry" where
  "newSong e = \<lparr> se_song = ev_song e, se_artist = ev_artist e, se_playCount = 0,
                 se_skipCount = 0, se_totalMs = 0, se_albumCounter = [], se_uriCounter = [] \<rparr>"

definition updateArtist :: "event \<Rightarrow> artistEntry \<Rightarrow> artistEntry" where
  "updateArtist e artistEntry =
     artistEntry\<lparr> ae_playCount := ae_playCount artistEntry + 1,
                  ae_skipCount := ae_skipCount artistEntry + skipInc (ev_skipped e),
                  ae_totalMs := ae_totalMs artistEntry + ev_msPlayed e \<rparr>"

definition newArtist :: "event \<Rightarrow> artistEntry" where
  "newArtist e = \<lparr> ae_artist = ev_artist e, ae_playCount = 0, ae_skipCount = 0, ae_totalMs = 0 \<rparr>"

definition updateMonthSong :: "event \<Rightarrow> monthSongEntry \<Rightarrow> monthSongEntry" where
  "updateMonthSong e monthSongEntry =
     monthSongEntry\<lparr> me_playCount := me_playCount monthSongEntry + 1,
                     me_totalMs := me_totalMs monthSongEntry + ev_msPlayed e \<rparr>"

text \<open>The body of the loop for an accepted event: the five tables and the counter.\<close>

definition accumulate :: "acc \<Rightarrow> event \<Rightarrow> acc" where
  "accumulate a e =
     (let songKey = makeSongKey (ev_song e) (ev_artist e);
          monthKey = timestampToMonthKey (ev_timestamp e);
          yearKey = yearFromTime (ev_timestamp e);
          songEntry = updateSong e (getOr (songMap a) songKey (newSong e));
          artistEntry = updateArtist e (getOr (artistMap a) (ev_artist e) (newArtist e));
          monthSongs = getOr (monthlySongMap a) monthKey [];
          monthSongEntry = updateMonthSong e
             (getOr monthSongs songKey \<lparr> me_playCount = 0, me_totalMs = 0 \<rparr>)
      in a\<lparr> songMap := mapSet (songMap a) songKey songEntry,
            artistMap := mapSet (artistMap a) (ev_artist e) artistEntry,
            monthlySongMap :=
              mapSet (monthlySongMap a) monthKey (mapSet monthSongs songKey monthSongEntry),
            monthlyMs := mapSet (monthlyMs a) monthKey (getOr (monthlyMs a) monthKey 0 + ev_msPlayed e),
            yearlyMs := mapSet (yearlyMs a) yearKey (getOr (yearlyMs a) yearKey 0 + ev_msPlayed e),
            songRecordsUsed := songRecordsUsed a + 1 \<rparr>)"

text \<open>One turn of the loop: the record is skipped and counted, or used, or the turn throws.\<close>

definition processRecord :: "host \<Rightarrow> acc \<Rightarrow> rawrecord \<Rightarrow> jsError + acc" where
  "processRecord h a r =
     (if \<not> isSongRecord r then Inr (a\<lparr> ignoredNonSong := ignoredNonSong a + 1 \<rparr>)
      else
        (case parseTimestamp h (ts r) of
           None \<Rightarrow> Inr (a\<lparr> ignoredBadTimestamp := ignoredBadTimestamp a + 1 \<rparr>)
         | Some timestamp \<Rightarrow>
             (case normalize r timestamp of
                Inl err \<Rightarrow> Inl err
              | Inr e \<Rightarrow> Inr (accumulate a e))))"

text \<open>The loop: it ends at the first turn that throws.\<close>

fun aggregateFrom :: "host \<Rightarrow> acc \<Rightarrow> rawrecord list \<Rightarrow> jsError + acc" where
  "aggregateFrom h a [] = Inr a"
| "aggregateFrom h a (r # records) =
     (case processRecord h a r of
        Inl err \<Rightarrow> Inl err
      | Inr a' \<Rightarrow> aggregateFrom h a' records)"

definition aggregate :: "host \<Rightarrow> rawrecord list \<Rightarrow> jsError + acc" where
  "aggregate h records = aggregateFrom h initAcc records"

section \<open>Ranking engine\<close>

text \<open>\<open>a || b\<close> on numbers: \<open>a\<close> unless it is zero.\<close>

definition orElse :: "int \<Rightarrow> int \<Rightarrow> int" where
  "orElse a b = (if a \<noteq> 0 then a else b)"

text \<open>
  \<open>Array.prototype.sort\<close> with a comparison function is a stable sort; it is modelled by
  insertion from the right, an element going before the first one it does not follow.
\<close>

fun sortInsert :: "('a \<Rightarrow> 'a \<Rightarrow> int) \<Rightarrow> 'a \<Rightarrow> 'a list \<Rightarrow> 'a list" where
  "sortInsert cmp x [] = [x]"
| "sortInsert cmp x (y # ys) = (if cmp x y \<le> 0 then x # y # ys else y # sortInsert cmp x ys)"

definition jsSort :: "('a \<Rightarrow> 'a \<Rightarrow> int) \<Rightarrow> 'a list \<Rightarrow> 'a list" where
  "jsSort cmp xs = foldr (sortInsert cmp) xs []"

record songRow =
  sr_song :: jsstring
  sr_artist :: jsstring
  sr_album :: jsstring
  sr_uri :: jsstring
  sr_playCount :: int
  sr_skipCount :: int
  sr_skipRate :: rat
  sr_totalMs :: int
  sr_totalMinutes :: rat
  sr_totalHours :: rat

record artistRow =
  ar_artist :: jsstring
  ar_playCount :: int
  ar_skipCount :: int
  ar_totalMs :: int
  ar_totalMinutes :: rat

record top3Row =
  t3_month :: jsstring
  t3_rank :: int
  t3_song :: jsstring
  t3_artist :: jsstring
  t3_playCount :: int
  t3_minutesListened :: rat

definition toSongRow :: "songEntry \<Rightarrow> songRow" where
  "toSongRow entry =
     (let album = mostCommonCounterKey (se_albumCounter entry);
          uri = mostCommonCounterKey (se_uriCounter entry);
          totalMinutes = of_int (se_totalMs entry) / 60000
      in \<lparr> sr_song = se_song entry, sr_artist = se_artist entry, sr_album = album, sr_uri = uri,
           sr_playCount = se_playCount entry, sr_skipCount = se_skipCount entry,
           sr_skipRate = (if se_playCount entry \<noteq> 0
                          then of_int (se_skipCount entry) / of_int (se_playCount entry) else 0),
           sr_totalMs = se_totalMs entry, sr_totalMinutes = totalMinutes,
           sr_totalHours = totalMinutes / 60 \<rparr>)"

definition compareSongsByPlayCount :: "host \<Rightarrow> songRow \<Rightarrow> songRow \<Rightarrow> int" where
  "compareSongsByPlayCount h a b =
     orElse (orElse (orElse (orElse
       (sr_playCount b - sr_playCount a)
       (sr_totalMs b - sr_totalMs a))
       (sr_skipCount b - sr_skipCount a))
       (localeCompare h (sr_artist a) (sr_artist b)))
       (localeCompare h (sr_song a) (sr_song b))"

definition compareSongsByListenTime :: "host \<Rightarrow> songRow \<Rightarrow> songRow \<Rightarrow> int" where
  "compareSongsByListenTime h a b =
     orElse (orElse (orElse
       (sr_totalMs b - sr_totalMs a)
       (sr_playCount b - sr_playCount a))
       (localeCompare h (sr_artist a) (sr_artist b)))
       (localeCompare h (sr_song a) (sr_song b))"

definition compareSongsBySkipCount :: "host \<Rightarrow> songRow \<Rightarrow> songRow \<Rightarrow> int" where
  "compareSongsBySkipCount h a b =
     orElse (orElse (orElse
       (sr_skipCount b - sr_skipCount a)
       (sr_playCount b - sr_playCount a))
       (localeCompare h (sr_artist a) (sr_artist b)))
       (localeCompare h (sr_song a) (sr_song b))"

definition compareMonthlySongRank ::
  "host \<Rightarrow> jsstring \<times> monthSongEntry \<Rightarrow> jsstring \<times> monthSongEntry \<Rightarrow> int" where
  "compareMonthlySongRank h a b =
     (case (a, b) of
        ((songA, statA), (songB, statB)) \<Rightarrow>
          (case (splitSongKey songA, splitSongKey songB) of
             ((titleA, artistA), (titleB, artistB)) \<Rightarrow>
               orElse (orElse (orElse
                 (me_playCount statB - me_playCount statA)
                 (me_totalMs statB - me_totalMs statA))
                 (localeCompare h artistA artistB))
                 (localeCompare h titleA titleB)))"

definition compareArtistsByTime :: "host \<Rightarrow> artistRow \<Rightarrow> artistRow \<Rightarrow> int" where
  "compareArtistsByTime h a b =
     orElse (orElse
       (ar_totalMs b - ar_totalMs a)
       (ar_playCount b - ar_playCount a))
       (localeCompare h (ar_artist a) (ar_artist b))"

section \<open>Report assembler\<close>

text \<open>
  The report. The metadata of the upload that is passed through, the display labels of
  the months and the date-range string made of them are left out.
\<close>

record report =
  totalRecordsRead :: int
  rp_songRecordsUsed :: int
  rp_ignoredNonSong :: int
  rp_ignoredBadTimestamp :: int
  uniqueSongs :: int
  totalSongMs :: int
  totalMinutes :: rat
  totalHours :: rat
  peakMonth :: "peak option"
  peakYear :: "peak option"
  songRows :: "songRow list"
  top10ByPlayCount :: "songRow list"
  top10ByTime :: "songRow list"
  top10Skipped :: "songRow list"
  top3PerMonthRows :: "top3Row list"
  monthlyMinutesRows :: "periodRow list"
  yearlyMinutesRows :: "periodRow list"
  topArtistsByMinutes :: "artistRow list"

definition monthTop3 ::
  "host \<Rightarrow> (jsstring \<times> (jsstring \<times> monthSongEntry) list) list \<Rightarrow> jsstring \<Rightarrow> top3Row list" where
  "monthTop3 h msm month =
     (case mapGet msm month of
        None \<Rightarrow> []
      | Some monthSongs \<Rightarrow>
          (let ranked = take 3 (jsSort (compareMonthlySongRank h) monthSongs)
           in map (\<lambda>(index, (songKey, monthEntry)).
                     (case splitSongKey songKey of
                        (song, artist) \<Rightarrow>
                          \<lparr> t3_month = month, t3_rank = int index + 1, t3_song = song,
                            t3_artist = artist, t3_playCount = me_playCount monthEntry,
                            t3_minutesListened = of_int (me_totalMs monthEntry) / 60000 \<rparr>))
                  (enumerate 0 ranked)))"

definition finalize :: "host \<Rightarrow> acc \<Rightarrow> int \<Rightarrow> report" where
  "finalize h a recordCount =
     (let rows = jsSort (compareSongsByPlayCount h) (map (toSongRow \<circ> snd) (songMap a));
          sortedMonths = jsSort (localeCompare h) (map fst (monthlySongMap a));
          monthlyRows =
            map (\<lambda>(month, totalMs).
                   MonthRow month totalMs (of_int totalMs / 60000) (of_int totalMs / 3600000))
                (jsSort (\<lambda>x y. localeCompare h (fst x) (fst y)) (monthlyMs a));
          yearlyRows =
            map (\<lambda>(year, totalMs).
                   YearRow year totalMs (of_int totalMs / 60000) (of_int totalMs / 3600000))
                (jsSort (\<lambda>x y. fst x - fst y) (yearlyMs a));
          total = foldl (\<lambda>sum row. sum + sr_totalMs row) 0 rows
      in \<lparr> totalRecordsRead = recordCount,
           rp_songRecordsUsed = songRecordsUsed a,
           rp_ignoredNonSong = ignoredNonSong a,
           rp_ignoredBadTimestamp = ignoredBadTimestamp a,
           uniqueSongs = int (length rows),
           totalSongMs = total,
           totalMinutes = of_int total / 60000,
           totalHours = of_int total / 3600000,
           peakMonth = pickPeak monthlyRows rowTotalMs rowMonth,
           peakYear = pickPeak yearlyRows rowTotalMs rowYearString,
           songRows = rows,
           top10ByPlayCount = take 10 (jsSort (compareSongsByPlayCount h) rows),
           top10ByTime = take 10 (jsSort (compareSongsByListenTime h) rows),
           top10Skipped =
             take 10 (jsSort (compareSongsBySkipCount h) (filter (\<lambda>row. sr_skipCount row > 0) rows)),
           top3PerMonthRows = concat (map (monthTop3 h (monthlySongMap a)) sortedMonths),
           monthlyMinutesRows = monthlyRows,
           yearlyMinutesRows = yearlyRows,
           topArtistsByMinutes =
             take 10 (jsSort (compareArtistsByTime h)
               (map (\<lambda>(k, row). \<lparr> ar_artist = ae_artist row, ar_playCount = ae_playCount row,
                                   ar_skipCount = ae_skipCount row, ar_totalMs = ae_totalMs row,
                                   ar_totalMinutes = of_int (ae_totalMs row) / 60000 \<rparr>)
                    (artistMap a))) \<rparr>)"

definition buildReport :: "host \<Rightarrow> rawrecord list \<Rightarrow> jsError + report" where
  "buildReport h records =
     (case aggregate h records of
        Inl err \<Rightarrow> Inl err
      | Inr a \<Rightarrow> Inr (finalize h a (int (length records))))"

section \<open>The run\<close>

text \<open>
  The part of \<open>handleProcess\<close> between the decoding of the files and the export: it
  throws when no record was decoded, builds the report, and throws when no song record
  was used. Whatever is thrown, also by \<open>buildReport\<close>, is caught and shown as the error of
  the run, and nothing is exported.
\<close>

datatype runError = NoValidRecords | NoSongRecords | Thrown jsError

definition processRecords :: "host \<Rightarrow> rawrecord list \<Rightarrow> runError + report" where
  "processRecords h records =
     (if records = [] then Inl NoValidRecords
      else
        (case buildReport h records of
           Inl err \<Rightarrow> Inl (Thrown err)
         | Inr rep \<Rightarrow> if rp_songRecordsUsed rep = 0 then Inl NoSongRecords else Inr rep))"

text \<open>The events accepted after classification and timestamp normalization.\<close>

definition accepted :: "host \<Rightarrow> rawrecord \<Rightarrow> bool" where
  "accepted h r = (isSongRecord r \<and> parseTimestamp h (ts r) \<noteq> None)"

definition acceptedCount :: "host \<Rightarrow> rawrecord list \<Rightarrow> int" where
  "acceptedCount h records = int (length (filter (accepted h) records))"

section \<open>Notions used to state the claims\<close>

text \<open>
  A consistent comparison function, as the language standard asks of the function given
  to \<open>sort\<close> and of \<open>localeCompare\<close>: the sign flips when the arguments are swapped, and
  "not after" is transitive.
\<close>

definition consistentCmp :: "('a \<Rightarrow> 'a \<Rightarrow> int) \<Rightarrow> bool" where
  "consistentCmp c =
     ((\<forall>a b. c a b < 0 \<longleftrightarrow> 0 < c b a) \<and>
      (\<forall>a b d. c a b \<le> 0 \<and> c b d \<le> 0 \<longrightarrow> c a d \<le> 0))"

text \<open>
  The order of the song table in the words of the specification: play count descending,
  then total milliseconds descending, then skip count descending, then artist ascending,
  then song ascending, the two strings under the collation of the host.
\<close>

definition playCountOrder :: "host \<Rightarrow> songRow \<Rightarrow> songRow \<Rightarrow> bool" where
  "playCountOrder h a b =
     (sr_playCount a > sr_playCount b \<or>
      (sr_playCount a = sr_playCount b \<and>
       (sr_totalMs a > sr_totalMs b \<or>
        (sr_totalMs a = sr_totalMs b \<and>
         (sr_skipCount a > sr_skipCount b \<or>
          (sr_skipCount a = sr_skipCount b \<and>
           (localeCompare h (sr_artist a) (sr_artist b) < 0 \<or>
            (localeCompare h (sr_artist a) (sr_artist b) = 0 \<and>
             localeCompare h (sr_song a) (sr_song b) \<le> 0))))))))"

text \<open>
  The pass on an input none of whose turns throws. A turn throws exactly when the record
  is accepted and the conversion of its duration throws; \<open>eventAt\<close> is the event of a
  record whose duration converts, \<open>step\<close> the turn without the throwing branch, \<open>passOf\<close>
  the tables and counters after all turns and \<open>reportOf\<close> the report made of them.
\<close>

definition throwing :: "host \<Rightarrow> rawrecord \<Rightarrow> bool" where
  "throwing h r = (accepted h r \<and> throwsTypeError (ms_played r))"

definition roundedMs :: "jsnum \<Rightarrow> int" where
  "roundedMs num = (case num of Fin q \<Rightarrow> if q < 0 then 0 else mathRound q | _ \<Rightarrow> 0)"

definition eventAt :: "rawrecord \<Rightarrow> int \<Rightarrow> event" where
  "eventAt r timestamp =
     \<lparr> ev_song = cleanString (master_metadata_track_name r),
       ev_artist = cleanString (master_metadata_album_artist_name r),
       ev_album = cleanString (master_metadata_album_album_name r),
       ev_uri = cleanString (spotify_track_uri r),
       ev_msPlayed = roundedMs (numberValue (ms_played r)),
       ev_skipped = toBoolean (skipped r),
       ev_timestamp = timestamp \<rparr>"

definition step :: "host \<Rightarrow> acc \<Rightarrow> rawrecord \<Rightarrow> acc" where
  "step h a r =
     (if \<not> isSongRecord r then a\<lparr> ignoredNonSong := ignoredNonSong a + 1 \<rparr>
      else
        (case parseTimestamp h (ts r) of
           None \<Rightarrow> a\<lparr> ignoredBadTimestamp := ignoredBadTimestamp a + 1 \<rparr>
         | Some timestamp \<Rightarrow> accumulate a (eventAt r timestamp)))"

definition passOf :: "host \<Rightarrow> rawrecord list \<Rightarrow> acc" where
  "passOf h records = foldl (step h) initAcc records"

definition reportOf :: "host \<Rightarrow> rawrecord list \<Rightarrow> report" where
  "reportOf h records = finalize h (passOf h records) (int (length records))"

text \<open>The two ways a record is skipped.\<close>

definition nonSong :: "rawrecord \<Rightarrow> bool" where
  "nonSong r = (\<not> isSongRecord r)"

definition badTimestamp :: "host \<Rightarrow> rawrecord \<Rightarrow> bool" where
  "badTimestamp h r = (isSongRecord r \<and> parseTimestamp h (ts r) = None)"

text \<open>
  A host for the examples: strings collate by code units, the date parser knows the
  standard format only, and local time is UTC.
\<close>

definition exampleHost :: host where
  "exampleHost = \<lparr> localeCompare = (\<lambda>a b. if strLess a b then - 1 else if a = b then 0 else 1),
                   legacyDateParse = (\<lambda>s. None), localTZA = (\<lambda>t. 0) \<rparr>"

text \<open>
  A host that reads the form \<open>2023-05-01 10:00:00\<close> itself, as local time, in a zone
  twelve hours ahead of UTC: what the language standard allows an implementation to do
  with a string that is not in the standard format.
\<close>

definition directHost :: host where
  "directHost = \<lparr> localeCompare = (\<lambda>a b. if strLess a b then - 1 else if a = b then 0 else 1),
                  legacyDateParse =
                    (\<lambda>s. if s = js ''2023-05-01 10:00:00'' then Some 1682892000000 else None),
                  localTZA = (\<lambda>t. 43200000) \<rparr>"

definition exampleRecord :: "string \<Rightarrow> string \<Rightarrow> string \<Rightarrow> string \<Rightarrow> int \<Rightarrow> bool \<Rightarrow> rawrecord" where
  "exampleRecord song artist episode stamp ms skip =
     \<lparr> master_metadata_track_name = JStr (js song),
       master_metadata_album_artist_name = JStr (js artist),
       master_metadata_album_album_name = JNull,
       spotify_track_uri = JUndefined,
       episode_name = JStr (js episode),
       spotify_episode_uri = JNull,
       ts = JStr (js stamp), ms_played = JNum (Fin (of_int ms)), skipped = JBool skip \<rparr>"

definition exampleRecords :: "rawrecord list" where
  "exampleRecords =
     [exampleRecord ''X'' ''A'' [] ''2023-05'' 1000 True,
      exampleRecord ''Y'' ''A'' [] ''2023-05'' 500 False,
      exampleRecord ''P'' ''H'' ''E'' ''2023-05'' 500 False,
      exampleRecord ''Z'' ''B'' [] ''x'' 500 False,
      exampleRecord ''Y'' ''A'' [] ''2023-06'' 200 False]"


section \<open>The tables as grouped folds\<close>

text \<open>
  Each table of the pass is filled the same way: the entry under the key of the event
  is read (a fresh one when the key is new), updated by the event and stored back.
  \<open>groupFold\<close> is a table filled this way from the empty table, and \<open>groupVal\<close> is the
  value such a table holds for the events of one key, in their order.
\<close>

definition upsert ::
  "('e \<Rightarrow> 'k) \<Rightarrow> ('e \<Rightarrow> 'v \<Rightarrow> 'v) \<Rightarrow> ('e \<Rightarrow> 'v) \<Rightarrow> ('k \<times> 'v) list \<Rightarrow> 'e \<Rightarrow> ('k \<times> 'v) list" where
  "upsert key upd dflt m e = mapSet m (key e) (upd e (getOr m (key e) (dflt e)))"

definition groupFold ::
  "('e \<Rightarrow> 'k) \<Rightarrow> ('e \<Rightarrow> 'v \<Rightarrow> 'v) \<Rightarrow> ('e \<Rightarrow> 'v) \<Rightarrow> 'e list \<Rightarrow> ('k \<times> 'v) list" where
  "groupFold key upd dflt es = foldl (upsert key upd dflt) [] es"

definition groupVal :: "('e \<Rightarrow> 'v \<Rightarrow> 'v) \<Rightarrow> ('e \<Rightarrow> 'v) \<Rightarrow> 'e list \<Rightarrow> 'v" where
  "groupVal upd dflt es = foldl (\<lambda>v e. upd e v) (dflt (hd es)) es"

text \<open>
  The keys and the updates of the five tables, as functions of the event.
\<close>

definition songKeyOf :: "event \<Rightarrow> jsstring" where
  "songKeyOf e = makeSongKey (ev_song e) (ev_artist e)"

definition monthKeyOf :: "event \<Rightarrow> jsstring" where
  "monthKeyOf e = timestampToMonthKey (ev_timestamp e)"

definition yearKeyOf :: "event \<Rightarrow> int" where
  "yearKeyOf e = yearFromTime (ev_timestamp e)"

definition addMsPlayed :: "event \<Rightarrow> int \<Rightarrow> int" where
  "addMsPlayed e v = v + ev_msPlayed e"

definition zeroMs :: "event \<Rightarrow> int" where
  "zeroMs e = 0"

definition noPlays :: "event \<Rightarrow> monthSongEntry" where
  "noPlays e = \<lparr> me_playCount = 0, me_totalMs = 0 \<rparr>"

definition addMonthSong :: "event \<Rightarrow> (jsstring \<times> monthSongEntry) list \<Rightarrow> (jsstring \<times> monthSongEntry) list" where
  "addMonthSong e monthSongs = upsert songKeyOf updateMonthSong noPlays monthSongs e"

definition noSongs :: "event \<Rightarrow> (jsstring \<times> monthSongEntry) list" where
  "noSongs e = []"

definition monthSongs :: "event list \<Rightarrow> (jsstring \<times> monthSongEntry) list" where
  "monthSongs es = groupFold songKeyOf updateMonthSong noPlays es"


text \<open>
  The accepted events of an input, in input order: the events that the pass folds into
  its tables when no turn throws.
\<close>

definition eventOf :: "host \<Rightarrow> rawrecord \<Rightarrow> event" where
  "eventOf h r = eventAt r (the (parseTimestamp h (ts r)))"

definition events :: "host \<Rightarrow> rawrecord list \<Rightarrow> event list" where
  "events h rs = map (eventOf h) (filter (accepted h) rs)"

text \<open>
  The accepted events that share a composite key, and those of a given song by a given
  artist, in input order.
\<close>

definition songEvents :: "host \<Rightarrow> rawrecord list \<Rightarrow> jsstring \<Rightarrow> event list" where
  "songEvents h rs k = filter (\<lambda>e. songKeyOf e = k) (events h rs)"

definition pairEvents :: "host \<Rightarrow> rawrecord list \<Rightarrow> jsstring \<Rightarrow> jsstring \<Rightarrow> event list" where
  "pairEvents h rs song artist =
     filter (\<lambda>e. ev_song e = song \<and> ev_artist e = artist) (events h rs)"

section \<open>Comparing the reports of two orders of the input\<close>




text \<open>
  Two accepted records with the same composite key have the same song and the same
  artist: no two songs of the input collide on their key.
\<close>

definition recordKey :: "rawrecord \<Rightarrow> jsstring" where
  "recordKey r = makeSongKey (cleanString (master_metadata_track_name r))
                   (cleanString (master_metadata_album_artist_name r))"

definition songKeysInjective :: "host \<Rightarrow> rawrecord list \<Rightarrow> bool" where
  "songKeysInjective h rs =
     (\<forall>r1 \<in> set rs. \<forall>r2 \<in> set rs.
        accepted h r1 \<and> accepted h r2 \<and> recordKey r1 = recordKey r2 \<longrightarrow>
        cleanString (master_metadata_track_name r1) = cleanString (master_metadata_track_name r2) \<and>
        cleanString (master_metadata_album_artist_name r1)
          = cleanString (master_metadata_album_artist_name r2))"


text \<open>
  A record whose track name and artist are given as code units, for inputs that hold the
  separator of the composite key.
\<close>

definition collidingRecord :: "jsstring \<Rightarrow> jsstring \<Rightarrow> rawrecord" where
  "collidingRecord song artist =
     \<lparr> master_metadata_track_name = JStr song,
       master_metadata_album_artist_name = JStr artist,
       master_metadata_album_album_name = JNull,
       spotify_track_uri = JNull,
       episode_name = JNull,
       spotify_episode_uri = JNull,
       ts = JStr (js ''2023-05''), ms_played = JNum (Fin 1000), skipped = JBool False \<rparr>"

text \<open>The same, with an album.\<close>

definition albumRecord :: "jsstring \<Rightarrow> jsstring \<Rightarrow> string \<Rightarrow> rawrecord" where
  "albumRecord song artist album =
     (collidingRecord song artist)\<lparr> master_metadata_album_album_name := JStr (js album) \<rparr>"

text \<open>
  A song record whose duration is the JSON object \<open>{"toString": 1}\<close>.
\<close>

definition throwingRecord :: rawrecord where
  "throwingRecord =
     (collidingRecord (js ''X'') (js ''A''))\<lparr> ms_played := JObj [(js ''toString'', JNum (Fin 1))] \<rparr>"

section \<open>Properties of the string primitives\<close>

lemma indexOfFrom_absent:
  "x \<notin> set s \<Longrightarrow> indexOfFrom s [x] i = -1"
  by (induction s arbitrary: i) auto

lemma indexOfFrom_first:
  "x \<notin> set s \<Longrightarrow> indexOfFrom (s @ x # t) [x] i = int (i + length s)"
  by (induction s arbitrary: i) auto

lemma indexOfFrom_lower:
  "indexOfFrom s pat i = -1 \<or> int i \<le> indexOfFrom s pat i"
proof (induction s arbitrary: i)
  case Nil
  show ?case by simp
next
  case (Cons c cs)
  show ?case
  proof (cases "prefix pat (c # cs)")
    case True
    then show ?thesis by simp
  next
    case False
    with Cons [of "Suc i"] show ?thesis by auto
  qed
qed

lemma indexOf_first:
  "x \<notin> set s \<Longrightarrow> indexOf (s @ x # t) [x] = int (length s)"
  by (simp add: indexOf_def indexOfFrom_first)

lemma cleanString_stringOrEmpty: "cleanString v = trim (stringOrEmpty v)"
  by (cases v) (simp_all add: cleanString_def stringOrEmpty_def trim_def)

lemma splitSongKey_makeSongKey:
  assumes "0x1F \<notin> set song"
  shows "splitSongKey (makeSongKey song artist) = (song, artist)"
  using assms
  by (simp add: splitSongKey_def makeSongKey_def KEY_SEP_def indexOf_first
      slice_def sliceFrom_def Let_def nat_add_distrib)

lemma splitSongKey_fst_no_sep:
  "0x1F \<notin> set (fst (splitSongKey k))"
proof (cases "0x1F \<in> set k")
  case False
  then have "indexOf k KEY_SEP = -1"
    by (simp add: indexOf_def KEY_SEP_def indexOfFrom_absent)
  with False show ?thesis
    by (simp add: splitSongKey_def)
next
  case True
  then obtain s t where k: "k = s @ 0x1F # t" and s: "0x1F \<notin> set s"
    by (auto dest: split_list_first)
  then show ?thesis
    by (simp add: splitSongKey_def KEY_SEP_def indexOf_first slice_def sliceFrom_def Let_def)
qed

section \<open>Properties of counters and of the peak selector\<close>

lemma strLess_iff: "strLess a b \<longleftrightarrow> a < b"
  by (induction a b rule: strLess.induct) auto

lemma mapSet_keys_present:
  "k \<in> fst ` set m \<Longrightarrow> map fst (mapSet m k v) = map fst m"
  by (induction m) force+

lemma mapSet_keys_absent:
  "k \<notin> fst ` set m \<Longrightarrow> map fst (mapSet m k v) = map fst m @ [k]"
  by (induction m) auto

lemma map_of_mapSet: "map_of (mapSet m k v) = (map_of m)(k \<mapsto> v)"
  by (induction m) auto

lemma observe_snoc: "observe (xs @ [x]) = incrementCounter (observe xs) x"
  by (simp add: observe_def)

lemma observe_count:
  "map_of (observe vs) v = (if v \<noteq> [] \<and> v \<in> set vs then Some (int (count_list vs v)) else None)"
proof (induction vs rule: rev_induct)
  case Nil
  show ?case by (simp add: observe_def)
next
  case (snoc x xs)
  then show ?case
    by (auto simp: observe_snoc incrementCounter_def map_of_mapSet getOr_def mapGet_def)
qed

lemma observe_keys_set: "fst ` set (observe vs) = {v \<in> set vs. v \<noteq> []}"
proof -
  have "fst ` set (observe vs) = dom (map_of (observe vs))"
    by (simp add: dom_map_of_conv_image_fst)
  also have "\<dots> = {v \<in> set vs. v \<noteq> []}"
    by (auto simp: dom_def observe_count)
  finally show ?thesis .
qed

lemma incrementCounter_keys:
  "map fst (incrementCounter m x) =
     (if x = [] \<or> x \<in> fst ` set m then map fst m else map fst m @ [x])"
  by (simp add: incrementCounter_def mapSet_keys_present mapSet_keys_absent)

lemma observe_distinct: "distinct (map fst (observe vs))"
proof (induction vs rule: rev_induct)
  case Nil
  show ?case by (simp add: observe_def)
next
  case (snoc x xs)
  then show ?case
    by (simp add: observe_snoc incrementCounter_keys)
qed

lemma observe_prefix:
  assumes "r \<noteq> []" "r \<notin> set p"
  shows "\<exists>rest. map fst (observe (p @ r # q)) = map fst (observe p) @ r # rest"
proof (induction q rule: rev_induct)
  case Nil
  have "r \<notin> fst ` set (observe p)"
    using assms by (simp add: observe_keys_set)
  with assms(1) have "map fst (observe (p @ [r])) = map fst (observe p) @ [r]"
    by (simp add: observe_snoc incrementCounter_keys)
  then show ?case by simp
next
  case (snoc x xs)
  then obtain rest where rest: "map fst (observe (p @ r # xs)) = map fst (observe p) @ r # rest"
    by blast
  have "observe (p @ r # xs @ [x]) = incrementCounter (observe (p @ r # xs)) x"
    using observe_snoc [of "p @ r # xs" x] by simp
  then have "map fst (observe (p @ r # xs @ [x])) = map fst (observe p) @ r # rest \<or>
      map fst (observe (p @ r # xs @ [x])) = map fst (observe p) @ r # (rest @ [x])"
    using rest by (simp add: incrementCounter_keys)
  then show ?case by blast
qed

lemma mostCommonLoop_keep:
  "\<forall>(k, c) \<in> set cnt. c \<le> bc \<Longrightarrow> mostCommonLoop cnt bk bc = bk"
  by (induction cnt arbitrary: bk bc) auto

lemma mostCommonLoop_pick:
  "\<exists>(k, c) \<in> set cnt. bc < c \<Longrightarrow>
   \<exists>pre r c post. cnt = pre @ (r, c) # post \<and> mostCommonLoop cnt bk bc = r \<and> bc < c \<and>
     (\<forall>(k', c') \<in> set pre. c' < c) \<and> (\<forall>(k', c') \<in> set post. c' \<le> c)"
proof (induction cnt arbitrary: bk bc)
  case Nil
  then show ?case by simp
next
  case (Cons a cnt)
  obtain k c where a: "a = (k, c)" by (cases a)
  show ?case
  proof (cases "bc < c")
    case True
    show ?thesis
    proof (cases "\<forall>(k', c') \<in> set cnt. c' \<le> c")
      case all: True
      then have "mostCommonLoop cnt k c = k" by (rule mostCommonLoop_keep)
      with True all a have "a # cnt = [] @ (k, c) # cnt \<and> mostCommonLoop (a # cnt) bk bc = k \<and> bc < c \<and>
         (\<forall>(k', c') \<in> set []. c' < c) \<and> (\<forall>(k', c') \<in> set cnt. c' \<le> c)"
        by simp
      then show ?thesis by blast
    next
      case False
      then have "\<exists>(k', c') \<in> set cnt. c < c'" by (fastforce simp: not_le)
      from Cons.IH [OF this, of k] obtain pre r c2 post where
        h: "cnt = pre @ (r, c2) # post" "mostCommonLoop cnt k c = r" "c < c2"
           "\<forall>(k', c') \<in> set pre. c' < c2" "\<forall>(k', c') \<in> set post. c' \<le> c2"
        by blast
      with True a have "a # cnt = ((k, c) # pre) @ (r, c2) # post \<and> mostCommonLoop (a # cnt) bk bc = r \<and> bc < c2 \<and>
         (\<forall>(k', c') \<in> set ((k, c) # pre). c' < c2) \<and> (\<forall>(k', c') \<in> set post. c' \<le> c2)"
        by simp
      then show ?thesis by blast
    qed
  next
    case False
    with Cons.prems a have "\<exists>(k', c') \<in> set cnt. bc < c'" by auto
    from Cons.IH [OF this, of bk] obtain pre r c2 post where
      h: "cnt = pre @ (r, c2) # post" "mostCommonLoop cnt bk bc = r" "bc < c2"
         "\<forall>(k', c') \<in> set pre. c' < c2" "\<forall>(k', c') \<in> set post. c' \<le> c2"
      by blast
    with False a have "a # cnt = ((k, c) # pre) @ (r, c2) # post \<and> mostCommonLoop (a # cnt) bk bc = r \<and> bc < c2 \<and>
         (\<forall>(k', c') \<in> set ((k, c) # pre). c' < c2) \<and> (\<forall>(k', c') \<in> set post. c' \<le> c2)"
      by simp
    then show ?thesis by blast
  qed
qed

lemma observe_entry:
  "(k, c) \<in> set (observe vs) \<Longrightarrow> k \<noteq> [] \<and> k \<in> set vs \<and> c = int (count_list vs k)"
proof -
  assume m: "(k, c) \<in> set (observe vs)"
  have "distinct (map fst (observe vs))" by (rule observe_distinct)
  with m have "map_of (observe vs) k = Some c" by simp
  then show ?thesis by (simp add: observe_count split: if_splits)
qed

lemma observe_has:
  "v \<noteq> [] \<Longrightarrow> v \<in> set vs \<Longrightarrow> (v, int (count_list vs v)) \<in> set (observe vs)"
  by (rule map_of_SomeD) (simp add: observe_count)

lemma split_first_unique:
  "a @ x # b = c @ x # d \<Longrightarrow> x \<notin> set a \<Longrightarrow> x \<notin> set c \<Longrightarrow> a = c"
proof (induction a arbitrary: c)
  case Nil
  then show ?case by (cases c) auto
next
  case (Cons y a)
  then show ?case by (cases c) auto
qed




lemma mathRound_numeral:
  "mathRound (numeral a / numeral b) = (2 * numeral a + numeral b) div (2 * numeral b)"
proof -
  have "(numeral a / numeral b :: rat) + 1 / 2
      = of_int (2 * numeral a + numeral b) / of_int (2 * numeral b)"
    by (simp add: field_simps)
  then show ?thesis unfolding mathRound_def
    by (simp only: floor_divide_of_int_eq)
qed

lemma bitLength_numeral:
  "bitLength 0 = 0"
  "bitLength (Suc 0) = 1"
  "bitLength (numeral Num.One) = 1"
  "bitLength (numeral (Num.Bit0 n)) = Suc (bitLength (numeral n))"
  "bitLength (numeral (Num.Bit1 n)) = Suc (bitLength (numeral n))"
proof -
  show "bitLength 0 = 0" by (simp add: bitLength.simps)
  show "bitLength (Suc 0) = 1" by (simp add: bitLength.simps [of "Suc 0"] bitLength.simps [of 0])
  show "bitLength (numeral Num.One) = 1"
    by (simp add: bitLength.simps [of "Suc 0"] bitLength.simps [of 0])
  have "numeral (Num.Bit0 n) div 2 = (numeral n :: nat)" by simp
  then show "bitLength (numeral (Num.Bit0 n)) = Suc (bitLength (numeral n))"
    by (simp add: bitLength.simps [of "numeral (Num.Bit0 n)"])
  have "numeral (Num.Bit1 n) div 2 = (numeral n :: nat)" by simp
  then show "bitLength (numeral (Num.Bit1 n)) = Suc (bitLength (numeral n))"
    by (simp add: bitLength.simps [of "numeral (Num.Bit1 n)"])
qed

lemmas number_eval = stringToNumber_def trim_def js_def isWhiteSpace_def
  nonDecimalIntegerLiteral_def strDecimalLiteral_def strUnsignedDecimal_def isDigit_def
  isHexDigit_def exponentPart_def digitsValue_def digitVal_def roundToDouble_def pow2_def
  negNum_def bitLength_numeral Let_def

lemma stringToNumber_example:
  "stringToNumber (js ''120.9'') = Fin (4253790585539789 / 35184372088832)"
  by (simp add: number_eval)

lemma stringToNumber_nearest:
  "stringToNumber (js ''2.4999999999999999'') = Fin (5 / 2)"
  by (simp add: number_eval)

section \<open>Properties of the aggregation pass\<close>

lemma accumulate_counters:
  "songRecordsUsed (accumulate a e) = songRecordsUsed a + 1 \<and>
   ignoredNonSong (accumulate a e) = ignoredNonSong a \<and>
   ignoredBadTimestamp (accumulate a e) = ignoredBadTimestamp a"
  by (simp add: accumulate_def Let_def)

lemma step_counters:
  "songRecordsUsed (step h a r) = songRecordsUsed a + (if accepted h r then 1 else 0) \<and>
   ignoredNonSong (step h a r) = ignoredNonSong a + (if nonSong r then 1 else 0) \<and>
   ignoredBadTimestamp (step h a r)
     = ignoredBadTimestamp a + (if badTimestamp h r then 1 else 0)"
  by (cases "parseTimestamp h (ts r)")
    (simp_all add: step_def accepted_def nonSong_def badTimestamp_def accumulate_counters)

lemma foldl_counters:
  "songRecordsUsed (foldl (step h) a rs)
     = songRecordsUsed a + int (length (filter (accepted h) rs)) \<and>
   ignoredNonSong (foldl (step h) a rs)
     = ignoredNonSong a + int (length (filter nonSong rs)) \<and>
   ignoredBadTimestamp (foldl (step h) a rs)
     = ignoredBadTimestamp a + int (length (filter (badTimestamp h) rs))"
proof (induction rs arbitrary: a)
  case Nil
  show ?case by simp
next
  case (Cons r rs)
  show ?case
    using Cons [of "step h a r"] step_counters [of h a r]
    by simp
qed

lemma passOf_counters:
  "songRecordsUsed (passOf h rs) = acceptedCount h rs \<and>
   ignoredNonSong (passOf h rs) = int (length (filter nonSong rs)) \<and>
   ignoredBadTimestamp (passOf h rs) = int (length (filter (badTimestamp h) rs))"
  using foldl_counters [of h initAcc rs]
  by (simp add: passOf_def acceptedCount_def initAcc_def)

lemma report_counters:
  "totalRecordsRead (reportOf h rs) = int (length rs) \<and>
   rp_songRecordsUsed (reportOf h rs) = songRecordsUsed (passOf h rs) \<and>
   rp_ignoredNonSong (reportOf h rs) = ignoredNonSong (passOf h rs) \<and>
   rp_ignoredBadTimestamp (reportOf h rs) = ignoredBadTimestamp (passOf h rs)"
  by (simp add: reportOf_def finalize_def Let_def)

lemma three_way_partition:
  "length (filter (accepted h) rs) + length (filter nonSong rs)
     + length (filter (badTimestamp h) rs) = length rs"
proof (induction rs)
  case Nil
  show ?case by simp
next
  case (Cons r rs)
  then show ?case
    by (auto simp: accepted_def nonSong_def badTimestamp_def)
qed

section \<open>Properties of comparison functions and of sorting\<close>

lemma consistentCmp_sym: "consistentCmp c \<Longrightarrow> c a b < 0 \<longleftrightarrow> 0 < c b a"
  by (simp add: consistentCmp_def)

lemma consistentCmp_zero: "consistentCmp c \<Longrightarrow> c a b = 0 \<longleftrightarrow> c b a = 0"
  using consistentCmp_sym [of c a b] consistentCmp_sym [of c b a] by linarith

lemma consistentCmp_total: "consistentCmp c \<Longrightarrow> c a b \<le> 0 \<or> c b a \<le> 0"
  using consistentCmp_sym [of c a b] by linarith

lemma consistentCmp_trans: "consistentCmp c \<Longrightarrow> c a b \<le> 0 \<Longrightarrow> c b d \<le> 0 \<Longrightarrow> c a d \<le> 0"
  unfolding consistentCmp_def by blast

lemma consistentCmp_less_le:
  assumes "consistentCmp c" "c a b < 0" "c b d \<le> 0"
  shows "c a d < 0"
proof (rule ccontr)
  assume "\<not> c a d < 0"
  then have "\<not> 0 < c d a" using consistentCmp_sym [OF assms(1), of a d] by simp
  then have "c d a \<le> 0" by simp
  from consistentCmp_trans [OF assms(1) assms(3) this] have "c b a \<le> 0" .
  with consistentCmp_sym [OF assms(1), of a b] assms(2) show False by simp
qed

lemma consistentCmp_le_less:
  assumes "consistentCmp c" "c a b \<le> 0" "c b d < 0"
  shows "c a d < 0"
proof (rule ccontr)
  assume "\<not> c a d < 0"
  then have "\<not> 0 < c d a" using consistentCmp_sym [OF assms(1), of a d] by simp
  then have "c d a \<le> 0" by simp
  from consistentCmp_trans [OF assms(1) this assms(2)] have "c d b \<le> 0" .
  with consistentCmp_sym [OF assms(1), of b d] assms(3) show False by simp
qed

lemma consistentCmp_desc: "consistentCmp (\<lambda>a b. f b - (f a :: int))"
  by (auto simp: consistentCmp_def)


lemma consistentCmp_key: "consistentCmp c \<Longrightarrow> consistentCmp (\<lambda>a b. c (f a) (f b))"
  unfolding consistentCmp_def by blast

lemma consistentCmp_orElse:
  assumes c1: "consistentCmp c1" and c2: "consistentCmp c2"
  shows "consistentCmp (\<lambda>a b. orElse (c1 a b) (c2 a b))"
  unfolding consistentCmp_def
proof (intro conjI allI impI)
  fix a b
  show "orElse (c1 a b) (c2 a b) < 0 \<longleftrightarrow> 0 < orElse (c1 b a) (c2 b a)"
    using consistentCmp_sym [OF c1, of a b] consistentCmp_sym [OF c1, of b a]
      consistentCmp_sym [OF c2, of a b]
    by (auto simp: orElse_def)
next
  fix a b d
  assume h: "orElse (c1 a b) (c2 a b) \<le> 0 \<and> orElse (c1 b d) (c2 b d) \<le> 0"
  then have ab: "c1 a b < 0 \<or> (c1 a b = 0 \<and> c2 a b \<le> 0)"
    and bd: "c1 b d < 0 \<or> (c1 b d = 0 \<and> c2 b d \<le> 0)"
    by (auto simp: orElse_def split: if_splits)
  have "c1 a d < 0 \<or> (c1 a d = 0 \<and> c2 a d \<le> 0)"
  proof (cases "c1 a b < 0")
    case True
    moreover from bd have "c1 b d \<le> 0" by auto
    ultimately show ?thesis using consistentCmp_less_le [OF c1] by blast
  next
    case False
    with ab have ab0: "c1 a b = 0" "c2 a b \<le> 0" by auto
    show ?thesis
    proof (cases "c1 b d < 0")
      case True
      with ab0 consistentCmp_le_less [OF c1, of a b d] show ?thesis by simp
    next
      case False
      with bd have bd0: "c1 b d = 0" "c2 b d \<le> 0" by auto
      from ab0 bd0 consistentCmp_trans [OF c1, of a b d] have le: "c1 a d \<le> 0" by simp
      from ab0 bd0 consistentCmp_zero [OF c1, of a b] consistentCmp_zero [OF c1, of b d]
        consistentCmp_trans [OF c1, of d b a] have "c1 d a \<le> 0" by simp
      with consistentCmp_sym [OF c1, of a d] have "\<not> c1 a d < 0" by simp
      with le have "c1 a d = 0" by simp
      moreover from ab0 bd0 consistentCmp_trans [OF c2, of a b d] have "c2 a d \<le> 0" by simp
      ultimately show ?thesis by simp
    qed
  qed
  then show "orElse (c1 a d) (c2 a d) \<le> 0"
    by (auto simp: orElse_def)
qed

lemma mset_sortInsert: "mset (sortInsert cmp x ys) = add_mset x (mset ys)"
  by (induction ys) auto

lemma mset_jsSort: "mset (jsSort cmp xs) = mset xs"
  by (induction xs) (simp_all add: jsSort_def mset_sortInsert)

lemma set_jsSort: "set (jsSort cmp xs) = set xs"
  using mset_jsSort [of cmp xs] by (metis set_mset_mset)

lemma length_jsSort: "length (jsSort cmp xs) = length xs"
  using mset_jsSort [of cmp xs] by (metis size_mset)

lemma set_sortInsert: "set (sortInsert cmp x ys) = insert x (set ys)"
  using mset_sortInsert [of cmp x ys] by (metis set_mset_add_mset_insert set_mset_mset)

lemma sorted_sortInsert:
  assumes c: "consistentCmp cmp"
  shows "sorted_wrt (\<lambda>a b. cmp a b \<le> 0) ys \<Longrightarrow> sorted_wrt (\<lambda>a b. cmp a b \<le> 0) (sortInsert cmp x ys)"
proof (induction ys)
  case Nil
  show ?case by simp
next
  case (Cons y ys)
  show ?case
  proof (cases "cmp x y \<le> 0")
    case True
    have "cmp x z \<le> 0" if "z \<in> set ys" for z
      using Cons.prems that True consistentCmp_trans [OF c, of x y z] by auto
    with True Cons.prems show ?thesis by auto
  next
    case False
    then have yx: "cmp y x \<le> 0" using consistentCmp_total [OF c, of x y] by simp
    from Cons have "sorted_wrt (\<lambda>a b. cmp a b \<le> 0) (sortInsert cmp x ys)" by simp
    with False yx Cons.prems show ?thesis
      by (auto simp: set_sortInsert)
  qed
qed

lemma sorted_jsSort:
  "consistentCmp cmp \<Longrightarrow> sorted_wrt (\<lambda>a b. cmp a b \<le> 0) (jsSort cmp xs)"
  by (induction xs) (simp_all add: jsSort_def sorted_sortInsert)

lemma jsSort_sorted:
  "sorted_wrt (\<lambda>a b. cmp a b \<le> 0) xs \<Longrightarrow> jsSort cmp xs = xs"
proof (induction xs)
  case Nil
  show ?case by (simp add: jsSort_def)
next
  case (Cons x xs)
  then have "jsSort cmp xs = xs" by simp
  then have "jsSort cmp (x # xs) = sortInsert cmp x xs" by (simp add: jsSort_def)
  with Cons.prems show ?case by (cases xs) auto
qed

lemma consistent_compareSongsByPlayCount:
  assumes "consistentCmp (localeCompare h)"
  shows "consistentCmp (compareSongsByPlayCount h)"
proof -
  have "consistentCmp (\<lambda>a b. orElse (orElse (orElse (orElse
       (sr_playCount b - sr_playCount a)
       (sr_totalMs b - sr_totalMs a))
       (sr_skipCount b - sr_skipCount a))
       (localeCompare h (sr_artist a) (sr_artist b)))
       (localeCompare h (sr_song a) (sr_song b)))"
    by (intro consistentCmp_orElse consistentCmp_desc consistentCmp_key [OF assms])
  then show ?thesis
    by (simp add: compareSongsByPlayCount_def [abs_def])
qed

lemma playCountOrder_iff:
  "playCountOrder h a b \<longleftrightarrow> compareSongsByPlayCount h a b \<le> 0"
  by (auto simp: playCountOrder_def compareSongsByPlayCount_def orElse_def)

section \<open>Evaluation of the examples\<close>

lemma consistent_exampleHost: "consistentCmp (localeCompare exampleHost)"
  by (auto simp: consistentCmp_def exampleHost_def strLess_iff)

lemmas date_eval = parseTimestamp_def dateParse_def parseIso_def parseIsoYear_def parseIsoTime_def
  parseIsoOffset_def digitsN_def sepDigits_def startsWith_def isoTimeValue_def isoLegal_def
  makeDay_def makeTime_def makeDate_def timeClip_def dayFromYear_def daysBeforeMonth_def leapDay_def
  daysInYear_def msPerDay_def includesStr_def replaceFirst_def endsWith_def indexOf_def
  trim_def isWhiteSpace_def js_def isDigit_def digitsValue_def digitVal_def Let_def

lemmas month_eval = timestampToMonthKey_def yearFromTime_def monthFromTime_def dayWithinYear_def
  dayOf_def dayFromYear_def leapDay_def daysInYear_def msPerDay_def intToString_def
  natDigits.simps padStart2_def js_def Let_def

lemma mathRound_of_int: "mathRound (of_int n) = n"
  unfolding mathRound_def by linarith

lemma mathRound_int_numeral: "mathRound (numeral n) = numeral n"
  using mathRound_of_int [of "numeral n"] by simp

lemmas record_eval = exampleRecord_def exampleHost_def isSongRecord_def cleanString_def
  eventAt_def roundedMs_def toBoolean_def mathRound_int_numeral accepted_def nonSong_def badTimestamp_def

lemma ex_proc:
  "step exampleHost a (exampleRecord ''X'' ''A'' [] ''2023-05'' 1000 True)
     = accumulate a \<lparr> ev_song = js ''X'', ev_artist = js ''A'', ev_album = [], ev_uri = [],
          ev_msPlayed = 1000, ev_skipped = True, ev_timestamp = 1682899200000 \<rparr>"
  "step exampleHost a (exampleRecord ''Y'' ''A'' [] ''2023-05'' 500 False)
     = accumulate a \<lparr> ev_song = js ''Y'', ev_artist = js ''A'', ev_album = [], ev_uri = [],
          ev_msPlayed = 500, ev_skipped = False, ev_timestamp = 1682899200000 \<rparr>"
  "step exampleHost a (exampleRecord ''Y'' ''A'' [] ''2023-06'' 200 False)
     = accumulate a \<lparr> ev_song = js ''Y'', ev_artist = js ''A'', ev_album = [], ev_uri = [],
          ev_msPlayed = 200, ev_skipped = False, ev_timestamp = 1685577600000 \<rparr>"
  "step exampleHost a (exampleRecord ''P'' ''H'' ''E'' ''2023-05'' 500 False)
     = a\<lparr> ignoredNonSong := ignoredNonSong a + 1 \<rparr>"
  "step exampleHost a (exampleRecord ''Z'' ''B'' [] ''x'' 500 False)
     = a\<lparr> ignoredBadTimestamp := ignoredBadTimestamp a + 1 \<rparr>"
  by (simp_all add: step_def record_eval date_eval)

lemma ex_month:
  "timestampToMonthKey 1682899200000 = js ''2023-05''"
  "timestampToMonthKey 1685577600000 = js ''2023-06''"
  "yearFromTime 1682899200000 = 2023"
  "yearFromTime 1685577600000 = 2023"
  by (simp_all add: month_eval)

lemma ex_aggregate:
  "map (\<lambda>(k, e). (se_song e, se_playCount e, se_totalMs e)) (songMap (passOf exampleHost exampleRecords))
     = [(js ''X'', 1, 1000), (js ''Y'', 2, 700)]"
  by (simp add: passOf_def exampleRecords_def ex_proc accumulate_def ex_month initAcc_def
      makeSongKey_def KEY_SEP_def getOr_def mapGet_def newSong_def updateSong_def skipInc_def
      incrementCounter_def js_def Let_def)

section \<open>Properties of the timestamp parser\<close>

lemma indexOf_absent: "c \<notin> set s \<Longrightarrow> indexOf s [c] = - 1"
  by (simp add: indexOf_def indexOfFrom_absent)

lemma includesStr_single: "includesStr s [c] \<longleftrightarrow> c \<in> set s"
proof (cases "c \<in> set s")
  case True
  then obtain a b where "s = a @ c # b" "c \<notin> set a" by (auto dest: split_list_first)
  with True show ?thesis by (simp add: includesStr_def indexOf_first)
next
  case False
  then show ?thesis by (simp add: includesStr_def indexOf_absent)
qed

lemma takeWhile_neq: "c \<notin> set a \<Longrightarrow> takeWhile (\<lambda>x. x \<noteq> c) (a @ c # b) = a"
  by (induction a) auto

lemma dropWhile_neq: "c \<notin> set a \<Longrightarrow> dropWhile (\<lambda>x. x \<noteq> c) (a @ c # b) = c # b"
  by (induction a) auto

lemma replaceFirst_single:
  "replaceFirst s [c] [d] =
     (case dropWhile (\<lambda>x. x \<noteq> c) s of
        [] \<Rightarrow> s
      | sp # rest \<Rightarrow> takeWhile (\<lambda>x. x \<noteq> c) s @ d # rest)"
proof (cases "c \<in> set s")
  case False
  then have "dropWhile (\<lambda>x. x \<noteq> c) s = []" by auto
  then show ?thesis
    using False by (simp only: list.case) (simp add: replaceFirst_def indexOf_absent)
next
  case True
  then obtain a b where s: "s = a @ c # b" "c \<notin> set a" by (auto dest: split_list_first)
  then have t: "takeWhile (\<lambda>x. x \<noteq> c) s = a" and d: "dropWhile (\<lambda>x. x \<noteq> c) s = c # b"
    by (simp_all add: takeWhile_neq dropWhile_neq)
  show ?thesis
    unfolding t d using s by (simp add: replaceFirst_def indexOf_first)
qed

lemma endsWith_single: "endsWith m [z] \<longleftrightarrow> m \<noteq> [] \<and> last m = z"
proof (cases m rule: rev_cases)
  case Nil
  then show ?thesis by (simp add: endsWith_def)
next
  case (snoc ys y)
  then show ?thesis by (auto simp: endsWith_def)
qed

lemma repair_eq:
  "(if endsWith (if includesStr s (js ''T'') then s else replaceFirst s (js '' '') (js ''T''))
         (js ''Z'')
    then (if includesStr s (js ''T'') then s else replaceFirst s (js '' '') (js ''T''))
    else (if includesStr s (js ''T'') then s else replaceFirst s (js '' '') (js ''T'')) @ js ''Z'')
   = lenientRepair s"
  by (simp add: js_def includesStr_single replaceFirst_single endsWith_single lenientRepair_def Let_def)

lemma parseTimestamp_string:
  "parseTimestamp h (JStr s) =
     (if trim s = [] then None
      else case dateParse h s of Some t \<Rightarrow> Some t | None \<Rightarrow> dateParse h (lenientRepair s))"
  using repair_eq [of s]
  by (cases "dateParse h s") (simp_all add: parseTimestamp_def Let_def)

lemma scenario_direct:
  "dateParse h (js ''2023-05-01 10:00:00'')
     = (case legacyDateParse h (js ''2023-05-01 10:00:00'') of None \<Rightarrow> None | Some t \<Rightarrow> timeClip t)"
  by (simp add: date_eval)

lemma scenario_repair: "lenientRepair (js ''2023-05-01 10:00:00'') = js ''2023-05-01T10:00:00Z''"
  by (simp add: lenientRepair_def js_def)

lemma scenario_reparse: "dateParse h (js ''2023-05-01T10:00:00Z'') = Some 1682935200000"
  by (simp add: date_eval)

lemma scenario_month:
  "timestampToMonthKey 1682935200000 = js ''2023-05''"
  "yearFromTime 1682935200000 = 2023"
  "monthFromTime 1682935200000 = 4"
  by (simp_all add: month_eval)


section \<open>Grouping, sorting and permutations of the input\<close>

lemma groupFold_snoc:
  "groupFold key upd dflt (es @ [e]) = upsert key upd dflt (groupFold key upd dflt es) e"
  by (simp add: groupFold_def)


lemma mapSet_distinct: "distinct (map fst m) \<Longrightarrow> distinct (map fst (mapSet m k v))"
  by (cases "k \<in> fst ` set m") (simp_all add: mapSet_keys_present mapSet_keys_absent)


lemma groupFold_distinct: "distinct (map fst (groupFold key upd dflt es))"
proof (induction es rule: rev_induct)
  case Nil
  show ?case by (simp add: groupFold_def)
next
  case (snoc e es)
  then show ?case
    by (simp add: groupFold_snoc upsert_def mapSet_distinct)
qed

lemma groupVal_snoc:
  "es \<noteq> [] \<Longrightarrow> groupVal upd dflt (es @ [e]) = upd e (groupVal upd dflt es)"
  by (simp add: groupVal_def)

lemma groupFold_lookup:
  "map_of (groupFold key upd dflt es) k =
     (if k \<in> key ` set es then Some (groupVal upd dflt (filter (\<lambda>e. key e = k) es)) else None)"
proof (induction es rule: rev_induct)
  case Nil
  show ?case by (simp add: groupFold_def)
next
  case (snoc e es)
  show ?case
  proof (cases "key e = k")
    case False
    with snoc show ?thesis
      by (simp add: groupFold_snoc upsert_def map_of_mapSet)
  next
    case True
    show ?thesis
    proof (cases "k \<in> key ` set es")
      case present: True
      then have ne: "filter (\<lambda>e. key e = k) es \<noteq> []"
        by (auto simp: filter_empty_conv)
      from present snoc have "getOr (groupFold key upd dflt es) k (dflt e)
          = groupVal upd dflt (filter (\<lambda>e. key e = k) es)"
        by (simp add: getOr_def mapGet_def)
      with True ne show ?thesis
        by (simp add: groupFold_snoc upsert_def map_of_mapSet groupVal_snoc)
    next
      case absent: False
      then have e: "filter (\<lambda>e. key e = k) es = []"
        by (auto simp: filter_empty_conv)
      from absent snoc have "getOr (groupFold key upd dflt es) k (dflt e) = dflt e"
        by (simp add: getOr_def mapGet_def)
      with True e show ?thesis
        by (simp add: groupFold_snoc upsert_def map_of_mapSet groupVal_def)
    qed
  qed
qed







lemma accumulate_tables:
  "songMap (accumulate a e) = upsert songKeyOf updateSong newSong (songMap a) e"
  "artistMap (accumulate a e) = upsert ev_artist updateArtist newArtist (artistMap a) e"
  "monthlySongMap (accumulate a e) = upsert monthKeyOf addMonthSong noSongs (monthlySongMap a) e"
  "monthlyMs (accumulate a e) = upsert monthKeyOf addMsPlayed zeroMs (monthlyMs a) e"
  "yearlyMs (accumulate a e) = upsert yearKeyOf addMsPlayed zeroMs (yearlyMs a) e"
  by (simp_all add: accumulate_def upsert_def Let_def songKeyOf_def monthKeyOf_def yearKeyOf_def
      addMsPlayed_def noPlays_def addMonthSong_def noSongs_def zeroMs_def)

lemma step_cases:
  "step h a r =
     (if accepted h r then accumulate a (eventOf h r)
      else if isSongRecord r then a\<lparr> ignoredBadTimestamp := ignoredBadTimestamp a + 1 \<rparr>
      else a\<lparr> ignoredNonSong := ignoredNonSong a + 1 \<rparr>)"
  by (cases "parseTimestamp h (ts r)") (simp_all add: step_def accepted_def eventOf_def)

lemma foldl_table:
  assumes acc: "\<And>a e. tbl (accumulate a e) = st (tbl a) e"
    and bad: "\<And>a n. tbl (a\<lparr> ignoredBadTimestamp := n \<rparr>) = tbl a"
    and non: "\<And>a n. tbl (a\<lparr> ignoredNonSong := n \<rparr>) = tbl a"
  shows "tbl (foldl (step h) a rs) = foldl st (tbl a) (events h rs)"
proof (induction rs arbitrary: a)
  case Nil
  show ?case by (simp add: events_def)
next
  case (Cons r rs)
  have step: "tbl (step h a r) = (if accepted h r then st (tbl a) (eventOf h r) else tbl a)"
    by (simp add: step_cases acc bad non)
  show ?case
    using Cons [of "step h a r"] step
    by (simp add: events_def)
qed

lemma passOf_tables:
  "songMap (passOf h rs) = groupFold songKeyOf updateSong newSong (events h rs)"
  "artistMap (passOf h rs) = groupFold ev_artist updateArtist newArtist (events h rs)"
  "monthlySongMap (passOf h rs) = groupFold monthKeyOf addMonthSong noSongs (events h rs)"
  "monthlyMs (passOf h rs) = groupFold monthKeyOf addMsPlayed zeroMs (events h rs)"
  "yearlyMs (passOf h rs) = groupFold yearKeyOf addMsPlayed zeroMs (events h rs)"
proof -
  show "songMap (passOf h rs) = groupFold songKeyOf updateSong newSong (events h rs)"
    using foldl_table [of songMap "upsert songKeyOf updateSong newSong" h initAcc rs]
    by (simp add: accumulate_tables passOf_def groupFold_def initAcc_def)
  show "artistMap (passOf h rs) = groupFold ev_artist updateArtist newArtist (events h rs)"
    using foldl_table [of artistMap "upsert ev_artist updateArtist newArtist" h initAcc rs]
    by (simp add: accumulate_tables passOf_def groupFold_def initAcc_def)
  show "monthlySongMap (passOf h rs) = groupFold monthKeyOf addMonthSong noSongs (events h rs)"
    using foldl_table [of monthlySongMap "upsert monthKeyOf addMonthSong noSongs" h initAcc rs]
    by (simp add: accumulate_tables passOf_def groupFold_def initAcc_def)
  show "monthlyMs (passOf h rs) = groupFold monthKeyOf addMsPlayed zeroMs (events h rs)"
    using foldl_table [of monthlyMs "upsert monthKeyOf addMsPlayed zeroMs" h initAcc rs]
    by (simp add: accumulate_tables passOf_def groupFold_def initAcc_def)
  show "yearlyMs (passOf h rs) = groupFold yearKeyOf addMsPlayed zeroMs (events h rs)"
    using foldl_table [of yearlyMs "upsert yearKeyOf addMsPlayed zeroMs" h initAcc rs]
    by (simp add: accumulate_tables passOf_def groupFold_def initAcc_def)
qed





text \<open>The values of the groups.\<close>

lemma foldl_updateSong:
  "se_song (foldl (\<lambda>v e. updateSong e v) v es) = se_song v \<and>
   se_artist (foldl (\<lambda>v e. updateSong e v) v es) = se_artist v \<and>
   se_playCount (foldl (\<lambda>v e. updateSong e v) v es) = se_playCount v + int (length es) \<and>
   se_skipCount (foldl (\<lambda>v e. updateSong e v) v es)
     = se_skipCount v + sum_list (map (\<lambda>e. skipInc (ev_skipped e)) es) \<and>
   se_totalMs (foldl (\<lambda>v e. updateSong e v) v es) = se_totalMs v + sum_list (map ev_msPlayed es)"
proof (induction es arbitrary: v)
  case Nil
  show ?case by simp
next
  case (Cons e es)
  show ?case
    using Cons [of "updateSong e v"] by (simp add: updateSong_def)
qed

lemma groupVal_song:
  "se_song (groupVal updateSong newSong es) = ev_song (hd es) \<and>
   se_artist (groupVal updateSong newSong es) = ev_artist (hd es) \<and>
   se_playCount (groupVal updateSong newSong es) = int (length es) \<and>
   se_skipCount (groupVal updateSong newSong es) = sum_list (map (\<lambda>e. skipInc (ev_skipped e)) es) \<and>
   se_totalMs (groupVal updateSong newSong es) = sum_list (map ev_msPlayed es)"
  using foldl_updateSong [of "newSong (hd es)" es]
  by (simp add: groupVal_def newSong_def)








lemma report_fields:
  "totalRecordsRead (reportOf h rs) = int (length rs)"
  "rp_songRecordsUsed (reportOf h rs) = songRecordsUsed (passOf h rs)"
  "rp_ignoredNonSong (reportOf h rs) = ignoredNonSong (passOf h rs)"
  "rp_ignoredBadTimestamp (reportOf h rs) = ignoredBadTimestamp (passOf h rs)"
  "songRows (reportOf h rs)
     = jsSort (compareSongsByPlayCount h) (map (toSongRow \<circ> snd) (songMap (passOf h rs)))"
  "uniqueSongs (reportOf h rs) = int (length (songRows (reportOf h rs)))"
  "totalSongMs (reportOf h rs)
     = foldl (\<lambda>sum row. sum + sr_totalMs row) 0 (songRows (reportOf h rs))"
  "totalMinutes (reportOf h rs) = of_int (totalSongMs (reportOf h rs)) / 60000"
  "totalHours (reportOf h rs) = of_int (totalSongMs (reportOf h rs)) / 3600000"
  "top10ByPlayCount (reportOf h rs)
     = take 10 (jsSort (compareSongsByPlayCount h) (songRows (reportOf h rs)))"
  "top10ByTime (reportOf h rs)
     = take 10 (jsSort (compareSongsByListenTime h) (songRows (reportOf h rs)))"
  "top10Skipped (reportOf h rs)
     = take 10 (jsSort (compareSongsBySkipCount h)
         (filter (\<lambda>row. sr_skipCount row > 0) (songRows (reportOf h rs))))"
  "monthlyMinutesRows (reportOf h rs)
     = map (\<lambda>(month, totalMs).
              MonthRow month totalMs (of_int totalMs / 60000) (of_int totalMs / 3600000))
         (jsSort (\<lambda>x y. localeCompare h (fst x) (fst y)) (monthlyMs (passOf h rs)))"
  "yearlyMinutesRows (reportOf h rs)
     = map (\<lambda>(year, totalMs).
              YearRow year totalMs (of_int totalMs / 60000) (of_int totalMs / 3600000))
         (jsSort (\<lambda>x y. fst x - fst y) (yearlyMs (passOf h rs)))"
  "peakMonth (reportOf h rs) = pickPeak (monthlyMinutesRows (reportOf h rs)) rowTotalMs rowMonth"
  "peakYear (reportOf h rs) = pickPeak (yearlyMinutesRows (reportOf h rs)) rowTotalMs rowYearString"
  "top3PerMonthRows (reportOf h rs)
     = concat (map (monthTop3 h (monthlySongMap (passOf h rs)))
         (jsSort (localeCompare h) (map fst (monthlySongMap (passOf h rs)))))"
  "topArtistsByMinutes (reportOf h rs)
     = take 10 (jsSort (compareArtistsByTime h)
         (map (\<lambda>(k, row). \<lparr> ar_artist = ae_artist row, ar_playCount = ae_playCount row,
                             ar_skipCount = ae_skipCount row, ar_totalMs = ae_totalMs row,
                             ar_totalMinutes = of_int (ae_totalMs row) / 60000 \<rparr>)
              (artistMap (passOf h rs))))"
  unfolding reportOf_def finalize_def Let_def
  by (simp_all only: report.select_convs)



lemma groupFold_entry:
  assumes "(k, v) \<in> set (groupFold key upd dflt es)"
  shows "k \<in> key ` set es \<and> v = groupVal upd dflt (filter (\<lambda>e. key e = k) es)"
proof -
  from assms have "map_of (groupFold key upd dflt es) k = Some v"
    using groupFold_distinct [of key upd dflt es] by simp
  then show ?thesis
    by (simp add: groupFold_lookup split: if_splits)
qed









































lemma no_separator_injective:
  assumes "\<forall>r \<in> set rs. 0x1F \<notin> set (cleanString (master_metadata_track_name r))"
  shows "songKeysInjective h rs"
  unfolding songKeysInjective_def
proof (intro ballI impI)
  fix r1 r2
  assume r: "r1 \<in> set rs" "r2 \<in> set rs"
    and a: "accepted h r1 \<and> accepted h r2 \<and> recordKey r1 = recordKey r2"
  from assms r have n1: "0x1F \<notin> set (cleanString (master_metadata_track_name r1))"
    and n2: "0x1F \<notin> set (cleanString (master_metadata_track_name r2))" by simp_all
  from a have "splitSongKey (recordKey r1) = splitSongKey (recordKey r2)" by simp
  then show "cleanString (master_metadata_track_name r1) = cleanString (master_metadata_track_name r2) \<and>
        cleanString (master_metadata_album_artist_name r1)
          = cleanString (master_metadata_album_artist_name r2)"
    by (simp add: recordKey_def splitSongKey_makeSongKey [OF n1] splitSongKey_makeSongKey [OF n2])
qed




lemma foldl_song_counters:
  "se_albumCounter (foldl (\<lambda>v e. updateSong e v) v es)
     = foldl incrementCounter (se_albumCounter v) (map ev_album es) \<and>
   se_uriCounter (foldl (\<lambda>v e. updateSong e v) v es)
     = foldl incrementCounter (se_uriCounter v) (map ev_uri es)"
proof (induction es arbitrary: v)
  case Nil
  show ?case by simp
next
  case (Cons e es)
  show ?case
    using Cons [of "updateSong e v"] by (simp add: updateSong_def)
qed

lemma groupVal_song_counters:
  "se_albumCounter (groupVal updateSong newSong es) = observe (map ev_album es) \<and>
   se_uriCounter (groupVal updateSong newSong es) = observe (map ev_uri es)"
  using foldl_song_counters [of "newSong (hd es)" es]
  by (simp add: groupVal_def newSong_def observe_def)

lemma song_entry_representative:
  assumes "(k, v) \<in> set (songMap (passOf h rs))"
  shows "sr_album (toSongRow v)
       = mostCommonCounterKey (observe (map ev_album (filter (\<lambda>e. songKeyOf e = k) (events h rs)))) \<and>
     sr_uri (toSongRow v)
       = mostCommonCounterKey (observe (map ev_uri (filter (\<lambda>e. songKeyOf e = k) (events h rs))))"
proof -
  from assms have "(k, v) \<in> set (groupFold songKeyOf updateSong newSong (events h rs))"
    by (simp only: passOf_tables)
  from groupFold_entry [OF this]
  have v: "v = groupVal updateSong newSong (filter (\<lambda>e. songKeyOf e = k) (events h rs))"
    by simp
  show ?thesis
    unfolding v by (simp add: toSongRow_def Let_def groupVal_song_counters)
qed

lemma observed_representative:
  "((\<forall>v \<in> set vs. v = []) \<longrightarrow> mostCommonCounterKey (observe vs) = []) \<and>
   ((\<exists>v \<in> set vs. v \<noteq> []) \<longrightarrow>
      (\<exists>p q. vs = p @ mostCommonCounterKey (observe vs) # q \<and>
           mostCommonCounterKey (observe vs) \<noteq> [] \<and>
           mostCommonCounterKey (observe vs) \<notin> set p \<and>
           (\<forall>v. v \<noteq> [] \<longrightarrow>
              count_list vs v \<le> count_list vs (mostCommonCounterKey (observe vs))) \<and>
           (\<forall>v \<in> set p. v \<noteq> [] \<longrightarrow>
              count_list vs v < count_list vs (mostCommonCounterKey (observe vs)))))"
proof (intro conjI impI)
  assume a: "\<forall>v \<in> set vs. v = []"
  have "fst ` set (observe vs) = {}"
    using a by (auto simp: observe_keys_set)
  then have "observe vs = []" by simp
  then show "mostCommonCounterKey (observe vs) = []" by (simp add: mostCommonCounterKey_def)
next
  assume ne: "\<exists>v \<in> set vs. v \<noteq> []"
  show "\<exists>p q. vs = p @ mostCommonCounterKey (observe vs) # q \<and>
           mostCommonCounterKey (observe vs) \<noteq> [] \<and>
           mostCommonCounterKey (observe vs) \<notin> set p \<and>
           (\<forall>v. v \<noteq> [] \<longrightarrow>
              count_list vs v \<le> count_list vs (mostCommonCounterKey (observe vs))) \<and>
           (\<forall>v \<in> set p. v \<noteq> [] \<longrightarrow>
              count_list vs v < count_list vs (mostCommonCounterKey (observe vs)))"
  proof -
    let ?cnt = "observe vs"
    from ne obtain v0 where v0: "v0 \<in> set vs" "v0 \<noteq> []" by blast
    then have "(v0, int (count_list vs v0)) \<in> set ?cnt" by (simp add: observe_has)
    moreover have "- 1 < int (count_list vs v0)" by simp
    ultimately have "\<exists>(k, c) \<in> set ?cnt. - 1 < c" by blast
    from mostCommonLoop_pick [OF this, of "[]"] obtain pre r c post where
      h: "?cnt = pre @ (r, c) # post" "mostCommonLoop ?cnt [] (- 1) = r"
         "\<forall>(k', c') \<in> set pre. c' < c" "\<forall>(k', c') \<in> set post. c' \<le> c"
      by blast
    have res: "mostCommonCounterKey ?cnt = r"
      by (simp add: mostCommonCounterKey_def h(2))
    have hpre: "c' < c" if "(k', c') \<in> set pre" for k' c'
      using h(3) that by blast
    have hpost: "c' \<le> c" if "(k', c') \<in> set post" for k' c'
      using h(4) that by blast
    have rin: "(r, c) \<in> set ?cnt" by (simp add: h(1))
    from observe_entry [OF rin] have r: "r \<noteq> []" "r \<in> set vs" "c = int (count_list vs r)"
      by simp_all
    from split_list_first [OF r(2)] obtain p q where pq: "vs = p @ r # q" "r \<notin> set p"
      by blast
    have inle: "c' \<le> c" if "(k', c') \<in> set ?cnt" for k' c'
    proof -
      from that have "(k', c') \<in> set pre \<or> (k', c') = (r, c) \<or> (k', c') \<in> set post"
        by (auto simp: h(1))
      then show ?thesis
      proof (elim disjE)
        assume "(k', c') \<in> set pre"
        from hpre [OF this] show ?thesis by simp
      next
        assume "(k', c') = (r, c)"
        then show ?thesis by simp
      next
        assume "(k', c') \<in> set post"
        from hpost [OF this] show ?thesis .
      qed
    qed
    have le: "count_list vs v \<le> count_list vs r" if "v \<noteq> []" for v
    proof (cases "v \<in> set vs")
      case True
      with that have "(v, int (count_list vs v)) \<in> set ?cnt" by (simp add: observe_has)
      from inle [OF this] r(3) show ?thesis by simp
    next
      case False
      then show ?thesis by (simp add: count_list_0_iff)
    qed
    from observe_prefix [OF r(1) pq(2), of q] obtain rest where
      "map fst (observe (p @ r # q)) = map fst (observe p) @ r # rest" by blast
    then have keys: "map fst ?cnt = map fst (observe p) @ r # rest"
      by (simp only: pq(1))
    have dist: "distinct (map fst ?cnt)" by (rule observe_distinct)
    have e: "map fst pre @ r # map fst post = map fst (observe p) @ r # rest"
      using keys by (simp add: h(1))
    have n1: "r \<notin> set (map fst pre)" using dist by (simp add: h(1))
    have "set (map fst (observe p)) = {v \<in> set p. v \<noteq> []}"
      using observe_keys_set [of p] by simp
    with pq(2) have n2: "r \<notin> set (map fst (observe p))" by simp
    have "map fst pre = map fst (observe p)"
      using e n1 n2 by (rule split_first_unique)
    then have "set (map fst pre) = set (map fst (observe p))"
      by simp
    then have pre: "fst ` set pre = {v \<in> set p. v \<noteq> []}"
      using observe_keys_set [of p] by simp
    have lt: "count_list vs v < count_list vs r" if "v \<in> set p" "v \<noteq> []" for v
    proof -
      from that pre have "v \<in> fst ` set pre" by simp
      then obtain c' where m: "(v, c') \<in> set pre" by force
      then have "(v, c') \<in> set ?cnt" by (simp add: h(1))
      from observe_entry [OF this] have c': "c' = int (count_list vs v)" by simp
      from hpre [OF m] c' r(3) show ?thesis by simp
    qed
    show ?thesis
      unfolding res
    proof (intro exI conjI allI ballI impI)
      show "vs = p @ r # q" by (rule pq(1))
      show "r \<noteq> []" by (rule r(1))
      show "r \<notin> set p" by (rule pq(2))
      show "count_list vs v \<le> count_list vs r" if "v \<noteq> []" for v by (rule le [OF that])
      show "count_list vs v < count_list vs r" if "v \<in> set p" "v \<noteq> []" for v
        by (rule lt [OF that])
    qed
  qed
  
qed

section \<open>The pass and its throwing turn\<close>

lemma sanitizeMs_cases:
  "sanitizeMs v = (if throwsTypeError v then Inl TypeError else Inr (roundedMs (numberValue v)))"
  by (cases "numberValue v") (simp_all add: sanitizeMs_def toNumber_def roundedMs_def isFinite_def)

lemma normalize_cases:
  "normalize r t = (if throwsTypeError (ms_played r) then Inl TypeError else Inr (eventAt r t))"
  by (simp add: normalize_def eventAt_def sanitizeMs_cases Let_def)

lemma processRecord_step:
  "processRecord h a r = (if throwing h r then Inl TypeError else Inr (step h a r))"
  by (cases "parseTimestamp h (ts r)")
    (simp_all add: processRecord_def step_def throwing_def accepted_def normalize_cases)

lemma aggregateFrom_fold:
  "aggregateFrom h a rs
     = (if list_ex (throwing h) rs then Inl TypeError else Inr (foldl (step h) a rs))"
  by (induction rs arbitrary: a) (simp_all add: processRecord_step)

lemma aggregate_passOf:
  "aggregate h rs = (if list_ex (throwing h) rs then Inl TypeError else Inr (passOf h rs))"
  by (simp add: aggregate_def passOf_def aggregateFrom_fold)

lemma buildReport_reportOf:
  "buildReport h rs = (if list_ex (throwing h) rs then Inl TypeError else Inr (reportOf h rs))"
  by (simp add: buildReport_def reportOf_def aggregate_passOf)

lemma buildReport_Inr:
  "buildReport h rs = Inr rep \<longleftrightarrow> \<not> list_ex (throwing h) rs \<and> rep = reportOf h rs"
  by (auto simp: buildReport_reportOf)


lemma throwing_accepted: "list_ex (throwing h) rs \<Longrightarrow> acceptedCount h rs \<noteq> 0"
proof -
  assume "list_ex (throwing h) rs"
  then obtain r where "r \<in> set rs" "accepted h r"
    by (auto simp: list_ex_iff throwing_def)
  then have "filter (accepted h) rs \<noteq> []"
    by (auto simp: filter_empty_conv)
  then show ?thesis by (simp add: acceptedCount_def)
qed

lemma ex_nothrow: "\<not> list_ex (throwing exampleHost) exampleRecords"
  by (simp add: throwing_def exampleRecords_def exampleRecord_def)

lemma ex_report:
  "buildReport exampleHost exampleRecords = Inr (reportOf exampleHost exampleRecords)"
  by (simp only: buildReport_reportOf ex_nothrow if_False)

section \<open>The rows of the song table and their events\<close>

lemma song_row_entry:
  assumes "row \<in> set (songRows (reportOf h rs))"
  shows "\<exists>v. (makeSongKey (sr_song row) (sr_artist row), v) \<in> set (songMap (passOf h rs)) \<and>
           row = toSongRow v"
proof -
  from assms have "row \<in> set (map (toSongRow \<circ> snd) (songMap (passOf h rs)))"
    by (simp only: report_fields(5) set_jsSort)
  then obtain k v where kv: "(k, v) \<in> set (songMap (passOf h rs))" and row: "row = toSongRow v"
    by auto
  let ?es = "filter (\<lambda>e. songKeyOf e = k) (events h rs)"
  from kv have "(k, v) \<in> set (groupFold songKeyOf updateSong newSong (events h rs))"
    by (simp only: passOf_tables)
  from groupFold_entry [OF this]
  have k: "k \<in> songKeyOf ` set (events h rs)" and v: "v = groupVal updateSong newSong ?es"
    by simp_all
  from k have ne: "?es \<noteq> []" by (auto simp: filter_empty_conv)
  then have "hd ?es \<in> set ?es" by (rule hd_in_set)
  then have key: "songKeyOf (hd ?es) = k" by simp
  have "sr_song row = ev_song (hd ?es)" "sr_artist row = ev_artist (hd ?es)"
    unfolding row v by (simp_all add: toSongRow_def Let_def groupVal_song)
  with key have "k = makeSongKey (sr_song row) (sr_artist row)"
    by (simp add: songKeyOf_def)
  with kv have "(makeSongKey (sr_song row) (sr_artist row), v) \<in> set (songMap (passOf h rs))"
    by simp
  with row show ?thesis by (intro exI [of _ v] conjI)
qed

lemma song_row_representative:
  assumes "row \<in> set (songRows (reportOf h rs))"
  shows "sr_album row = mostCommonCounterKey
           (observe (map ev_album (songEvents h rs (makeSongKey (sr_song row) (sr_artist row)))))"
    and "sr_uri row = mostCommonCounterKey
           (observe (map ev_uri (songEvents h rs (makeSongKey (sr_song row) (sr_artist row)))))"
proof -
  from song_row_entry [OF assms] obtain v
    where kv: "(makeSongKey (sr_song row) (sr_artist row), v) \<in> set (songMap (passOf h rs))"
      and row: "row = toSongRow v"
    by blast
  from song_entry_representative [OF kv]
  show "sr_album row = mostCommonCounterKey
           (observe (map ev_album (songEvents h rs (makeSongKey (sr_song row) (sr_artist row)))))"
    and "sr_uri row = mostCommonCounterKey
           (observe (map ev_uri (songEvents h rs (makeSongKey (sr_song row) (sr_artist row)))))"
    unfolding songEvents_def using row by simp_all
qed

lemma event_fields:
  "ev_song (eventOf h r) = cleanString (master_metadata_track_name r)"
  "ev_artist (eventOf h r) = cleanString (master_metadata_album_artist_name r)"
  "songKeyOf (eventOf h r) = recordKey r"
  by (simp_all add: eventOf_def eventAt_def songKeyOf_def recordKey_def)

lemma song_row_first:
  assumes "row \<in> set (songRows (reportOf h rs))"
  shows "\<exists>r0 \<in> set rs. accepted h r0 \<and>
           sr_song row = cleanString (master_metadata_track_name r0) \<and>
           sr_artist row = cleanString (master_metadata_album_artist_name r0)"
proof -
  define k where "k = makeSongKey (sr_song row) (sr_artist row)"
  define es where "es = filter (\<lambda>e. songKeyOf e = k) (events h rs)"
  from song_row_entry [OF assms] obtain v
    where kv: "(k, v) \<in> set (songMap (passOf h rs))" and rv: "row = toSongRow v"
    unfolding k_def by blast
  from kv have "(k, v) \<in> set (groupFold songKeyOf updateSong newSong (events h rs))"
    by (simp only: passOf_tables)
  from groupFold_entry [OF this]
  have k: "k \<in> songKeyOf ` set (events h rs)" and v: "v = groupVal updateSong newSong es"
    unfolding es_def by simp_all
  from k have "es \<noteq> []" unfolding es_def by (auto simp: filter_empty_conv)
  then have "hd es \<in> set es" by (rule hd_in_set)
  then have "hd es \<in> set (events h rs)" unfolding es_def by simp
  then obtain r0 where r0: "r0 \<in> set rs" "accepted h r0" "hd es = eventOf h r0"
    unfolding events_def by auto
  have "sr_song row = ev_song (hd es)" "sr_artist row = ev_artist (hd es)"
    unfolding rv v by (simp_all add: toSongRow_def Let_def groupVal_song)
  then have "sr_song row = cleanString (master_metadata_track_name r0)"
    "sr_artist row = cleanString (master_metadata_album_artist_name r0)"
    unfolding r0(3) by (simp_all only: event_fields)
  with r0(1) r0(2) show ?thesis by (intro bexI [of _ r0] conjI)
qed

lemma song_row_events:
  assumes row: "row \<in> set (songRows (reportOf h rs))" and inj: "songKeysInjective h rs"
  shows "songEvents h rs (makeSongKey (sr_song row) (sr_artist row))
       = pairEvents h rs (sr_song row) (sr_artist row)"
proof -
  from song_row_first [OF row] obtain r0
    where r0: "r0 \<in> set rs" "accepted h r0"
      and s0: "sr_song row = cleanString (master_metadata_track_name r0)"
      and a0: "sr_artist row = cleanString (master_metadata_album_artist_name r0)"
    by blast
  have k0: "makeSongKey (sr_song row) (sr_artist row) = recordKey r0"
    by (simp only: s0 a0 recordKey_def)
  have "(songKeyOf e = recordKey r0)
      = (ev_song e = cleanString (master_metadata_track_name r0) \<and>
         ev_artist e = cleanString (master_metadata_album_artist_name r0))"
    if e: "e \<in> set (events h rs)" for e
  proof
    assume "ev_song e = cleanString (master_metadata_track_name r0) \<and>
         ev_artist e = cleanString (master_metadata_album_artist_name r0)"
    then show "songKeyOf e = recordKey r0" by (simp add: songKeyOf_def recordKey_def)
  next
    assume same: "songKeyOf e = recordKey r0"
    from e obtain r where r: "r \<in> set rs" "accepted h r" and er: "e = eventOf h r"
      unfolding events_def by auto
    from same have "recordKey r = recordKey r0"
      unfolding er by (simp only: event_fields)
    with r(2) r0(2) have "accepted h r \<and> accepted h r0 \<and> recordKey r = recordKey r0"
      by simp
    then have "cleanString (master_metadata_track_name r) = cleanString (master_metadata_track_name r0) \<and>
        cleanString (master_metadata_album_artist_name r)
          = cleanString (master_metadata_album_artist_name r0)"
      by (rule inj [unfolded songKeysInjective_def, rule_format, OF r(1) r0(1)])
    then show "ev_song e = cleanString (master_metadata_track_name r0) \<and>
         ev_artist e = cleanString (master_metadata_album_artist_name r0)"
      unfolding er by (simp only: event_fields)
  qed
  then have "filter (\<lambda>e. songKeyOf e = recordKey r0) (events h rs)
      = filter (\<lambda>e. ev_song e = cleanString (master_metadata_track_name r0) \<and>
         ev_artist e = cleanString (master_metadata_album_artist_name r0)) (events h rs)"
    by (intro filter_cong refl)
  then show ?thesis
    unfolding songEvents_def pairEvents_def k0 unfolding s0 a0 .
qed

section \<open>Evaluation of the inputs that refute a claim\<close>

lemma direct_host_parse:
  "dateParse directHost (js ''2023-05-01 10:00:00'') = Some 1682892000000"
  "parseTimestamp directHost (JStr (js ''2023-05-01 10:00:00'')) = Some 1682892000000"
  by (simp_all add: directHost_def date_eval)

lemma direct_host_month: "timestampToMonthKey 1682892000000 = js ''2023-04''"
  by (simp add: month_eval)

lemma offset_repair:
  "statedRepair (js ''2023-05-01 10:00:00+02:00'') = js ''2023-05-01T10:00:00+02:00''"
  "lenientRepair (js ''2023-05-01 10:00:00+02:00'') = js ''2023-05-01T10:00:00+02:00Z''"
  by (simp_all add: statedRepair_def hasZoneMarker_def lenientRepair_def includesStr_def
      replaceFirst_def endsWith_def indexOf_def isDigit_def js_def Let_def)

lemma offset_parse:
  "dateParse exampleHost (js ''2023-05-01 10:00:00+02:00'') = None"
  "dateParse exampleHost (js ''2023-05-01T10:00:00+02:00'') = Some 1682928000000"
  "parseTimestamp exampleHost (JStr (js ''2023-05-01 10:00:00+02:00'')) = None"
  by (simp_all add: exampleHost_def date_eval)

lemma album_proc:
  "step exampleHost a (albumRecord [0x41, 0x1F, 0x42] [0x43] ''X'')
     = accumulate a \<lparr> ev_song = [0x41, 0x1F, 0x42], ev_artist = [0x43], ev_album = js ''X'',
          ev_uri = [], ev_msPlayed = 1000, ev_skipped = False, ev_timestamp = 1682899200000 \<rparr>"
  "step exampleHost a (albumRecord [0x41] [0x42, 0x1F, 0x43] ''Y'')
     = accumulate a \<lparr> ev_song = [0x41], ev_artist = [0x42, 0x1F, 0x43], ev_album = js ''Y'',
          ev_uri = [], ev_msPlayed = 1000, ev_skipped = False, ev_timestamp = 1682899200000 \<rparr>"
  by (simp_all add: step_def albumRecord_def collidingRecord_def record_eval date_eval)

lemma album_rows:
  "map sr_song (songRows (reportOf exampleHost
      [albumRecord [0x41, 0x1F, 0x42] [0x43] ''X'', albumRecord [0x41] [0x42, 0x1F, 0x43] ''Y'',
       albumRecord [0x41] [0x42, 0x1F, 0x43] ''Y''])) = [[0x41, 0x1F, 0x42]]"
  "map sr_artist (songRows (reportOf exampleHost
      [albumRecord [0x41, 0x1F, 0x42] [0x43] ''X'', albumRecord [0x41] [0x42, 0x1F, 0x43] ''Y'',
       albumRecord [0x41] [0x42, 0x1F, 0x43] ''Y''])) = [[0x43]]"
  "map sr_album (songRows (reportOf exampleHost
      [albumRecord [0x41, 0x1F, 0x42] [0x43] ''X'', albumRecord [0x41] [0x42, 0x1F, 0x43] ''Y'',
       albumRecord [0x41] [0x42, 0x1F, 0x43] ''Y''])) = [js ''Y'']"
  by (simp_all add: report_fields(5) passOf_def album_proc
      accumulate_def ex_month initAcc_def makeSongKey_def KEY_SEP_def getOr_def mapGet_def
      newSong_def updateSong_def skipInc_def incrementCounter_def mostCommonCounterKey_def
      Let_def jsSort_def toSongRow_def js_def)

lemma album_events:
  "map ev_album (pairEvents exampleHost
      [albumRecord [0x41, 0x1F, 0x42] [0x43] ''X'', albumRecord [0x41] [0x42, 0x1F, 0x43] ''Y'',
       albumRecord [0x41] [0x42, 0x1F, 0x43] ''Y''] [0x41, 0x1F, 0x42] [0x43]) = [js ''X'']"
  by (simp add: pairEvents_def events_def eventOf_def albumRecord_def collidingRecord_def
      record_eval date_eval)

lemma album_nothrow:
  "\<not> list_ex (throwing exampleHost)
      [albumRecord [0x41, 0x1F, 0x42] [0x43] ''X'', albumRecord [0x41] [0x42, 0x1F, 0x43] ''Y'',
       albumRecord [0x41] [0x42, 0x1F, 0x43] ''Y'']"
  by (simp add: throwing_def albumRecord_def collidingRecord_def)


lemma throwing_example:
  "accepted exampleHost throwingRecord"
  "throwsTypeError (ms_played throwingRecord)"
  by (simp_all add: throwingRecord_def collidingRecord_def record_eval date_eval)


section \<open>The report of a permuted input\<close>


section \<open>Claims\<close>

text \<open>
  C4. The classifier accepts a record exactly when the trimmed track name and the trimmed
  artist name are both non-empty and the trimmed episode name and episode URI are both
  empty, where a value that is not a string (or is missing) is read as the empty string.
  The classifier is a total function to \<open>bool\<close>: it has no failing branch.
\<close>

theorem isSongRecord_iff:
  "isSongRecord r \<longleftrightarrow>
     trim (stringOrEmpty (master_metadata_track_name r)) \<noteq> [] \<and>
     trim (stringOrEmpty (master_metadata_album_artist_name r)) \<noteq> [] \<and>
     trim (stringOrEmpty (episode_name r)) = [] \<and>
     trim (stringOrEmpty (spotify_episode_uri r)) = []"
  by (auto simp: isSongRecord_def Let_def cleanString_stringOrEmpty)

theorem isSongRecord_iff_witness:
  "isSongRecord \<lparr> master_metadata_track_name = JStr (js '' Song X ''),
       master_metadata_album_artist_name = JStr (js ''Artist A''),
       master_metadata_album_album_name = JNull,
       spotify_track_uri = JUndefined,
       episode_name = JNull,
       spotify_episode_uri = JNum (Fin 3),
       ts = JUndefined, ms_played = JUndefined, skipped = JUndefined \<rparr>
   \<and> \<not> isSongRecord \<lparr> master_metadata_track_name = JStr (js ''Song X''),
       master_metadata_album_artist_name = JStr (js ''Artist A''),
       master_metadata_album_album_name = JNull,
       spotify_track_uri = JUndefined,
       episode_name = JStr (js ''Episode 1''),
       spotify_episode_uri = JNull,
       ts = JUndefined, ms_played = JUndefined, skipped = JUndefined \<rparr>"
  by (simp add: isSongRecord_iff stringOrEmpty_def trim_def js_def isWhiteSpace_def)

text \<open>
  C10. Splitting a key made from \<open>(song, artist)\<close> gives back \<open>(song, artist)\<close> whenever
  the song holds no U+001F. The condition is needed: when the song holds a U+001F the
  split gives back a different pair, and a different pair of strings has the same key.
\<close>

theorem splitSongKey_roundtrip:
  "(0x1F \<notin> set song \<longrightarrow> splitSongKey (makeSongKey song artist) = (song, artist)) \<and>
   (0x1F \<in> set song \<longrightarrow>
      splitSongKey (makeSongKey song artist) \<noteq> (song, artist) \<and>
      (\<exists>song' artist'. (song', artist') \<noteq> (song, artist) \<and>
         makeSongKey song' artist' = makeSongKey song artist))"
proof (intro conjI impI)
  assume "0x1F \<notin> set song"
  then show "splitSongKey (makeSongKey song artist) = (song, artist)"
    by (rule splitSongKey_makeSongKey)
next
  assume sep: "0x1F \<in> set song"
  have "0x1F \<notin> set (fst (splitSongKey (makeSongKey song artist)))"
    by (rule splitSongKey_fst_no_sep)
  with sep show "splitSongKey (makeSongKey song artist) \<noteq> (song, artist)"
    by auto
next
  assume sep: "0x1F \<in> set song"
  then obtain s t where song: "song = s @ 0x1F # t" and s: "0x1F \<notin> set s"
    by (auto dest: split_list_first)
  have "makeSongKey s (t @ 0x1F # artist) = makeSongKey song artist"
    by (simp add: makeSongKey_def KEY_SEP_def song)
  moreover have "(s, t @ 0x1F # artist) \<noteq> (song, artist)"
    using song by auto
  ultimately show "\<exists>song' artist'. (song', artist') \<noteq> (song, artist) \<and>
      makeSongKey song' artist' = makeSongKey song artist"
    by blast
qed

theorem splitSongKey_roundtrip_witness:
  "splitSongKey (makeSongKey (js ''Song X'') (js ''Artist A'')) = (js ''Song X'', js ''Artist A'') \<and>
   splitSongKey (makeSongKey [0x41, 0x1F, 0x42] [0x43]) \<noteq> ([0x41, 0x1F, 0x42], [0x43]) \<and>
   makeSongKey [0x41] [0x42, 0x1F, 0x43] = makeSongKey [0x41, 0x1F, 0x42] [0x43]"
proof -
  have a: "0x1F \<notin> set (js ''Song X'')"
    by (simp add: js_def)
  have b: "0x1F \<in> set [0x41, 0x1F, 0x42 :: jschar]"
    by simp
  have c: "makeSongKey [0x41] [0x42, 0x1F, 0x43] = makeSongKey [0x41, 0x1F, 0x42] [0x43]"
    by (simp add: makeSongKey_def KEY_SEP_def)
  from a b c splitSongKey_roundtrip [of "js ''Song X''" "js ''Artist A''"]
    splitSongKey_roundtrip [of "[0x41, 0x1F, 0x42]" "[0x43]"]
  show ?thesis by blast
qed


text \<open>
  C5. The sanitized duration is the raw value coerced to a number and then: \<open>0\<close> when the
  number is not finite or is negative; otherwise the number rounded to the nearest integer
  (within one half of it, a half going up). A coercion that throws has no sanitized
  duration. A raw \<open>-500\<close> sanitizes to \<open>0\<close>; the raw string \<open>120.9\<close> coerces to the double
  nearest to it and sanitizes to \<open>121\<close>, which is rounding: truncation would give \<open>120\<close>.
  The string \<open>2.4999999999999999\<close> coerces to the double \<open>2.5\<close> and sanitizes to \<open>3\<close>.
\<close>

theorem sanitizeMs_clamps_and_rounds:
  "(\<forall>num. toNumber v = Inr num \<and> \<not> isFinite num \<longrightarrow> sanitizeMs v = Inr 0) \<and>
   (\<forall>q. toNumber v = Inr (Fin q) \<and> q < 0 \<longrightarrow> sanitizeMs v = Inr 0) \<and>
   (\<forall>q. toNumber v = Inr (Fin q) \<and> 0 \<le> q \<longrightarrow>
      sanitizeMs v = Inr \<lfloor>q + 1 / 2\<rfloor> \<and> \<bar>of_int \<lfloor>q + 1 / 2\<rfloor> - q\<bar> \<le> 1 / 2) \<and>
   (\<forall>err. toNumber v = Inl err \<longrightarrow> sanitizeMs v = Inl err) \<and>
   sanitizeMs (JNum (Fin (- 500))) = Inr 0 \<and>
   sanitizeMs (JStr (js ''120.9'')) = Inr 121 \<and>
   toNumber (JStr (js ''120.9'')) = Inr (Fin (4253790585539789 / 35184372088832)) \<and>
   sanitizeMs (JStr (js ''120.9'')) \<noteq> Inr \<lfloor>4253790585539789 / 35184372088832 :: rat\<rfloor> \<and>
   toNumber (JStr (js ''2.4999999999999999'')) = Inr (Fin (5 / 2)) \<and>
   sanitizeMs (JStr (js ''2.4999999999999999'')) = Inr 3"
proof (intro conjI allI impI)
  fix num assume "toNumber v = Inr num \<and> \<not> isFinite num"
  then show "sanitizeMs v = Inr 0"
    by (cases num) (simp_all add: sanitizeMs_def isFinite_def)
next
  fix q assume "toNumber v = Inr (Fin q) \<and> q < 0"
  then show "sanitizeMs v = Inr 0" by (simp add: sanitizeMs_def isFinite_def)
next
  fix q assume a: "toNumber v = Inr (Fin q) \<and> 0 \<le> q"
  then show "sanitizeMs v = Inr \<lfloor>q + 1 / 2\<rfloor>"
    by (simp add: sanitizeMs_def isFinite_def mathRound_def)
  show "\<bar>of_int \<lfloor>q + 1 / 2\<rfloor> - q\<bar> \<le> 1 / 2" by linarith
next
  fix err assume "toNumber v = Inl err"
  then show "sanitizeMs v = Inl err" by (simp add: sanitizeMs_def)
next
  show "sanitizeMs (JNum (Fin (- 500))) = Inr 0"
    by (simp add: sanitizeMs_def toNumber_def isFinite_def)
next
  show r: "sanitizeMs (JStr (js ''120.9'')) = Inr 121"
    by (simp add: sanitizeMs_def toNumber_def isFinite_def stringToNumber_example mathRound_numeral)
  have "\<lfloor>4253790585539789 / 35184372088832 :: rat\<rfloor> = 120" by linarith
  with r show "sanitizeMs (JStr (js ''120.9'')) \<noteq> Inr \<lfloor>4253790585539789 / 35184372088832 :: rat\<rfloor>"
    by simp
next
  show "toNumber (JStr (js ''120.9'')) = Inr (Fin (4253790585539789 / 35184372088832))"
    by (simp add: toNumber_def stringToNumber_example)
next
  show "toNumber (JStr (js ''2.4999999999999999'')) = Inr (Fin (5 / 2))"
    by (simp add: toNumber_def stringToNumber_nearest)
next
  show "sanitizeMs (JStr (js ''2.4999999999999999'')) = Inr 3"
    by (simp add: sanitizeMs_def toNumber_def isFinite_def stringToNumber_nearest mathRound_numeral)
qed

theorem sanitizeMs_clamps_and_rounds_witness:
  "sanitizeMs (JNum NaN) = Inr 0 \<and> sanitizeMs (JBool True) = Inr 1 \<and>
   sanitizeMs (JNum (Fin (- 1 / 2))) = Inr 0 \<and> sanitizeMs (JNum (Fin (5 / 2))) = Inr 3 \<and>
   sanitizeMs (JObj [(js ''toString'', JNum (Fin 1))]) = Inl TypeError"
proof -
  have a: "toNumber (JNum NaN) = Inr NaN \<and> \<not> isFinite NaN"
    by (simp add: toNumber_def isFinite_def)
  have b: "toNumber (JNum (Fin (- 1 / 2))) = Inr (Fin (- 1 / 2)) \<and> (- 1 / 2 :: rat) < 0"
    by (simp add: toNumber_def)
  have c: "toNumber (JNum (Fin (5 / 2))) = Inr (Fin (5 / 2)) \<and> (0 :: rat) \<le> 5 / 2"
    by (simp add: toNumber_def)
  have d: "toNumber (JBool True) = Inr (Fin 1) \<and> (0 :: rat) \<le> 1"
    by (simp add: toNumber_def)
  have t: "toNumber (JObj [(js ''toString'', JNum (Fin 1))]) = Inl TypeError"
    by (simp add: toNumber_def)
  have e: "\<lfloor>5 / 2 + 1 / 2 :: rat\<rfloor> = 3" "\<lfloor>1 + 1 / 2 :: rat\<rfloor> = 1" by linarith+
  from a sanitizeMs_clamps_and_rounds [of "JNum NaN"]
  have 1: "sanitizeMs (JNum NaN) = Inr 0" by blast
  from b sanitizeMs_clamps_and_rounds [of "JNum (Fin (- 1 / 2))"]
  have 2: "sanitizeMs (JNum (Fin (- 1 / 2))) = Inr 0" by blast
  from c sanitizeMs_clamps_and_rounds [of "JNum (Fin (5 / 2))"]
  have "sanitizeMs (JNum (Fin (5 / 2))) = Inr \<lfloor>5 / 2 + 1 / 2 :: rat\<rfloor>" by blast
  then have 3: "sanitizeMs (JNum (Fin (5 / 2))) = Inr 3" by (simp only: e)
  from d sanitizeMs_clamps_and_rounds [of "JBool True"]
  have "sanitizeMs (JBool True) = Inr \<lfloor>1 + 1 / 2 :: rat\<rfloor>" by blast
  then have 4: "sanitizeMs (JBool True) = Inr 1" by (simp only: e)
  from t sanitizeMs_clamps_and_rounds [of "JObj [(js ''toString'', JNum (Fin 1))]"]
  have 5: "sanitizeMs (JObj [(js ''toString'', JNum (Fin 1))]) = Inl TypeError" by blast
  from 1 2 3 4 5 show ?thesis by simp
qed




text \<open>
  C1, as stated, fails on two counts. A host may read a string that is not in the
  standard format in its own way: a host that reads \<open>2023-05-01 10:00:00\<close> as local time,
  twelve hours ahead of UTC, parses it directly, with no repair, to a time in April 2023
  UTC. And the program appends a \<open>Z\<close> whenever the string does not end in \<open>Z\<close>, also when
  a zone marker is present: \<open>2023-05-01 10:00:00+02:00\<close>, which the repair as stated
  turns into a string that parses, is rejected.
\<close>

theorem parseTimestamp_scenario_counterexample:
  "dateParse directHost (js ''2023-05-01 10:00:00'') = Some 1682892000000 \<and>
   parseTimestamp directHost (JStr (js ''2023-05-01 10:00:00'')) = Some 1682892000000 \<and>
   timestampToMonthKey 1682892000000 = js ''2023-04'' \<and>
   dateParse exampleHost (js ''2023-05-01 10:00:00+02:00'') = None \<and>
   statedRepair (js ''2023-05-01 10:00:00+02:00'') = js ''2023-05-01T10:00:00+02:00'' \<and>
   dateParse exampleHost (js ''2023-05-01T10:00:00+02:00'') = Some 1682928000000 \<and>
   lenientRepair (js ''2023-05-01 10:00:00+02:00'') = js ''2023-05-01T10:00:00+02:00Z'' \<and>
   parseTimestamp exampleHost (JStr (js ''2023-05-01 10:00:00+02:00'')) = None"
  by (simp only: direct_host_parse direct_host_month offset_repair offset_parse simp_thms)

text \<open>
  C1, amended. The timestamp parser returns the direct parse of the string when that is
  valid; when it is not, it parses the repaired string (first space replaced by \<open>T\<close> when
  the string has no \<open>T\<close>, a \<open>Z\<close> appended unless the last character is \<open>Z\<close>); a blank
  or non-string value is rejected. The direct parse reads the date-time format of the
  language standard and leaves any other string to the host. On a host that rejects the
  string \<open>2023-05-01 10:00:00\<close>, the direct parse of it fails, the repair gives
  \<open>2023-05-01T10:00:00Z\<close>, and the event falls in the UTC month May 2023; on a host that
  reads the string, the event has the time the host reads.
\<close>

theorem parseTimestamp_direct_then_repair:
  "(\<forall>t. trim s \<noteq> [] \<and> dateParse h s = Some t \<longrightarrow> parseTimestamp h (JStr s) = Some t) \<and>
   (trim s \<noteq> [] \<and> dateParse h s = None \<longrightarrow>
      parseTimestamp h (JStr s) = dateParse h (lenientRepair s)) \<and>
   (trim s = [] \<longrightarrow> parseTimestamp h (JStr s) = None) \<and>
   ((\<forall>x. v \<noteq> JStr x) \<longrightarrow> parseTimestamp h v = None) \<and>
   (legacyDateParse h (js ''2023-05-01 10:00:00'') = None \<longrightarrow>
      dateParse h (js ''2023-05-01 10:00:00'') = None \<and>
      lenientRepair (js ''2023-05-01 10:00:00'') = js ''2023-05-01T10:00:00Z'' \<and>
      parseTimestamp h (JStr (js ''2023-05-01 10:00:00'')) = Some 1682935200000 \<and>
      timestampToMonthKey 1682935200000 = js ''2023-05'' \<and>
      yearFromTime 1682935200000 = 2023 \<and>
      monthFromTime 1682935200000 = 4) \<and>
   (\<forall>t t'. legacyDateParse h (js ''2023-05-01 10:00:00'') = Some t \<and> timeClip t = Some t' \<longrightarrow>
      dateParse h (js ''2023-05-01 10:00:00'') = Some t' \<and>
      parseTimestamp h (JStr (js ''2023-05-01 10:00:00'')) = Some t')"
proof (intro conjI allI impI)
  fix t assume "trim s \<noteq> [] \<and> dateParse h s = Some t"
  then show "parseTimestamp h (JStr s) = Some t" by (simp add: parseTimestamp_string)
next
  assume "trim s \<noteq> [] \<and> dateParse h s = None"
  then show "parseTimestamp h (JStr s) = dateParse h (lenientRepair s)"
    by (simp add: parseTimestamp_string)
next
  assume "trim s = []"
  then show "parseTimestamp h (JStr s) = None" by (simp add: parseTimestamp_string)
next
  assume "\<forall>x. v \<noteq> JStr x"
  then show "parseTimestamp h v = None" by (cases v) (simp_all add: parseTimestamp_def)
next
  assume a: "legacyDateParse h (js ''2023-05-01 10:00:00'') = None"
  then show d: "dateParse h (js ''2023-05-01 10:00:00'') = None" by (simp add: scenario_direct)
  have "trim (js ''2023-05-01 10:00:00'') \<noteq> []"
    by (simp add: trim_def js_def isWhiteSpace_def)
  with d show "parseTimestamp h (JStr (js ''2023-05-01 10:00:00'')) = Some 1682935200000"
    by (simp add: parseTimestamp_string scenario_repair scenario_reparse)
next
  show "lenientRepair (js ''2023-05-01 10:00:00'') = js ''2023-05-01T10:00:00Z''"
    by (rule scenario_repair)
next
  show "timestampToMonthKey 1682935200000 = js ''2023-05''" by (rule scenario_month)
next
  show "yearFromTime 1682935200000 = 2023" by (rule scenario_month)
next
  show "monthFromTime 1682935200000 = 4" by (rule scenario_month)
next
  fix t t'
  assume a: "legacyDateParse h (js ''2023-05-01 10:00:00'') = Some t \<and> timeClip t = Some t'"
  then show d: "dateParse h (js ''2023-05-01 10:00:00'') = Some t'"
    by (simp add: scenario_direct)
  have "trim (js ''2023-05-01 10:00:00'') \<noteq> []"
    by (simp add: trim_def js_def isWhiteSpace_def)
  with d show "parseTimestamp h (JStr (js ''2023-05-01 10:00:00'')) = Some t'"
    by (simp add: parseTimestamp_string)
qed

theorem parseTimestamp_direct_then_repair_witness:
  "parseTimestamp exampleHost (JStr (js ''2023-05-01 10:00:00'')) = Some 1682935200000 \<and>
   dateParse exampleHost (js ''2023-05-01 10:00:00'') = None \<and>
   timestampToMonthKey 1682935200000 = js ''2023-05'' \<and>
   parseTimestamp exampleHost (JStr (js ''2023-05-01T10:00:00Z'')) = Some 1682935200000 \<and>
   parseTimestamp exampleHost (JStr (js ''  '')) = None \<and>
   parseTimestamp exampleHost JNull = None \<and>
   legacyDateParse directHost (js ''2023-05-01 10:00:00'') = Some 1682892000000 \<and>
   parseTimestamp directHost (JStr (js ''2023-05-01 10:00:00'')) = Some 1682892000000"
proof -
  have a: "legacyDateParse exampleHost (js ''2023-05-01 10:00:00'') = None"
    by (simp add: exampleHost_def)
  have b: "trim (js ''2023-05-01T10:00:00Z'') \<noteq> [] \<and>
      dateParse exampleHost (js ''2023-05-01T10:00:00Z'') = Some 1682935200000"
    by (simp add: scenario_reparse) (simp add: trim_def js_def isWhiteSpace_def)
  have c: "trim (js ''  '') = []" by (simp add: trim_def js_def isWhiteSpace_def)
  have d: "\<forall>x. JNull \<noteq> JStr x" by simp
  have e: "legacyDateParse directHost (js ''2023-05-01 10:00:00'') = Some 1682892000000 \<and>
      timeClip 1682892000000 = Some 1682892000000"
    by (simp add: directHost_def timeClip_def)
  from a parseTimestamp_direct_then_repair [of "js ''2023-05-01 10:00:00''" exampleHost JNull]
  have 1: "parseTimestamp exampleHost (JStr (js ''2023-05-01 10:00:00'')) = Some 1682935200000"
    "dateParse exampleHost (js ''2023-05-01 10:00:00'') = None"
    "timestampToMonthKey 1682935200000 = js ''2023-05''"
    by blast+
  from b parseTimestamp_direct_then_repair [of "js ''2023-05-01T10:00:00Z''" exampleHost JNull]
  have 2: "parseTimestamp exampleHost (JStr (js ''2023-05-01T10:00:00Z'')) = Some 1682935200000"
    by blast
  from c d parseTimestamp_direct_then_repair [of "js ''  ''" exampleHost JNull]
  have 3: "parseTimestamp exampleHost (JStr (js ''  '')) = None"
    "parseTimestamp exampleHost JNull = None"
    by blast+
  from e parseTimestamp_direct_then_repair [of "js ''  ''" directHost JNull]
  have 4: "parseTimestamp directHost (JStr (js ''2023-05-01 10:00:00'')) = Some 1682892000000"
    by blast
  from 1 2 3 4 e show ?thesis by simp
qed

text \<open>
  C2. The three provenance counters of a report add up to the number of records read,
  which is the length of the input; one turn of the loop adds one to exactly one of the
  three counters and leaves the other two alone. The report is there for every input
  none of whose turns throws.
\<close>

theorem provenance_counters_partition:
  "(\<forall>rep. buildReport h rs = Inr rep \<longrightarrow>
      rp_songRecordsUsed rep + rp_ignoredNonSong rep + rp_ignoredBadTimestamp rep
        = totalRecordsRead rep \<and>
      totalRecordsRead rep = int (length rs)) \<and>
   (\<forall>a'. processRecord h a r = Inr a' \<longrightarrow>
      (songRecordsUsed a', ignoredNonSong a', ignoredBadTimestamp a')
        = (songRecordsUsed a + 1, ignoredNonSong a, ignoredBadTimestamp a) \<or>
      (songRecordsUsed a', ignoredNonSong a', ignoredBadTimestamp a')
        = (songRecordsUsed a, ignoredNonSong a + 1, ignoredBadTimestamp a) \<or>
      (songRecordsUsed a', ignoredNonSong a', ignoredBadTimestamp a')
        = (songRecordsUsed a, ignoredNonSong a, ignoredBadTimestamp a + 1)) \<and>
   (\<not> list_ex (throwing h) rs \<longrightarrow> (\<exists>rep. buildReport h rs = Inr rep))"
proof (intro conjI allI impI)
  fix rep assume "buildReport h rs = Inr rep"
  then have rep: "rep = reportOf h rs" by (simp add: buildReport_Inr)
  from three_way_partition [of h rs]
  have "int (length (filter (accepted h) rs)) + int (length (filter nonSong rs))
     + int (length (filter (badTimestamp h) rs)) = int (length rs)"
    by linarith
  then show "rp_songRecordsUsed rep + rp_ignoredNonSong rep + rp_ignoredBadTimestamp rep
        = totalRecordsRead rep"
    unfolding rep by (simp add: report_counters passOf_counters acceptedCount_def)
  show "totalRecordsRead rep = int (length rs)"
    unfolding rep by (simp add: report_counters)
next
  fix a' assume "processRecord h a r = Inr a'"
  then have a': "a' = step h a r"
    by (simp add: processRecord_step split: if_splits)
  show "(songRecordsUsed a', ignoredNonSong a', ignoredBadTimestamp a')
        = (songRecordsUsed a + 1, ignoredNonSong a, ignoredBadTimestamp a) \<or>
      (songRecordsUsed a', ignoredNonSong a', ignoredBadTimestamp a')
        = (songRecordsUsed a, ignoredNonSong a + 1, ignoredBadTimestamp a) \<or>
      (songRecordsUsed a', ignoredNonSong a', ignoredBadTimestamp a')
        = (songRecordsUsed a, ignoredNonSong a, ignoredBadTimestamp a + 1)"
    unfolding a' using step_counters [of h a r]
    by (auto simp: accepted_def nonSong_def badTimestamp_def)
next
  assume "\<not> list_ex (throwing h) rs"
  then show "\<exists>rep. buildReport h rs = Inr rep" by (simp add: buildReport_reportOf)
qed

theorem provenance_counters_partition_witness:
  "\<exists>rep. buildReport exampleHost exampleRecords = Inr rep \<and>
     rp_songRecordsUsed rep = 3 \<and> rp_ignoredNonSong rep = 1 \<and>
     rp_ignoredBadTimestamp rep = 1 \<and> totalRecordsRead rep = 5"
proof -
  let ?rep = "reportOf exampleHost exampleRecords"
  have ev: "songRecordsUsed (passOf exampleHost exampleRecords) = 3"
    "ignoredNonSong (passOf exampleHost exampleRecords) = 1"
    "ignoredBadTimestamp (passOf exampleHost exampleRecords) = 1"
    by (simp_all add: passOf_def exampleRecords_def ex_proc accumulate_counters initAcc_def)
  then have c: "rp_songRecordsUsed ?rep = 3" "rp_ignoredNonSong ?rep = 1"
    "rp_ignoredBadTimestamp ?rep = 1"
    by (simp_all add: report_counters)
  from ex_report provenance_counters_partition [of exampleHost exampleRecords initAcc undefined]
  have "rp_songRecordsUsed ?rep + rp_ignoredNonSong ?rep + rp_ignoredBadTimestamp ?rep
      = totalRecordsRead ?rep"
    by blast
  with c have "totalRecordsRead ?rep = 5" by simp
  with c ex_report show ?thesis by blast
qed

text \<open>
  C3, as stated, fails. An input with no record ends in a fatal error that is not the one
  about song records. And a song record with a timestamp that parses is accepted, yet
  the pass ends in a \<open>TypeError\<close>, with no report, when its duration is a JSON object with
  a member \<open>toString\<close>.
\<close>

theorem fatal_iff_counterexample:
  "processRecords exampleHost [] = Inl NoValidRecords \<and>
   acceptedCount exampleHost [] = 0 \<and>
   acceptedCount exampleHost [throwingRecord] = 1 \<and>
   buildReport exampleHost [throwingRecord] = Inl TypeError \<and>
   processRecords exampleHost [throwingRecord] = Inl (Thrown TypeError)"
proof -
  have t: "list_ex (throwing exampleHost) [throwingRecord]"
    by (simp add: throwing_def throwing_example)
  have b: "buildReport exampleHost [throwingRecord] = Inl TypeError"
    by (simp only: buildReport_reportOf t if_True)
  have "processRecords exampleHost [throwingRecord] = Inl (Thrown TypeError)"
    by (simp add: processRecords_def b)
  with b show ?thesis
    by (simp add: processRecords_def acceptedCount_def throwing_example)
qed

text \<open>
  C3, amended. On an input in which the duration of every accepted record converts to a
  number, the run ends in a fatal error, with no report, exactly when no event is
  accepted after classification and timestamp normalization; the error is the one about
  song records exactly when the input is not empty, and the one about records exactly
  when it is empty. Otherwise the run gives the report of the pass. A record that is not
  a song or whose timestamp does not parse is counted and skipped, and a song record
  whose timestamp parses and whose duration converts is used, whatever its duration,
  album or URI.
\<close>

theorem fatal_iff_no_accepted_event:
  assumes "\<not> list_ex (throwing h) rs"
  shows "(isl (processRecords h rs) \<longleftrightarrow> acceptedCount h rs = 0) \<and>
   (processRecords h rs = Inl NoSongRecords \<longleftrightarrow> rs \<noteq> [] \<and> acceptedCount h rs = 0) \<and>
   (processRecords h rs = Inl NoValidRecords \<longleftrightarrow> rs = []) \<and>
   (acceptedCount h rs \<noteq> 0 \<longrightarrow>
      (\<exists>rep. buildReport h rs = Inr rep \<and> processRecords h rs = Inr rep)) \<and>
   (\<exists>rep. buildReport h rs = Inr rep \<and>
      rp_songRecordsUsed rep = acceptedCount h rs \<and>
      rp_ignoredNonSong rep = int (length (filter nonSong rs)) \<and>
      rp_ignoredBadTimestamp rep = int (length (filter (badTimestamp h) rs))) \<and>
   (nonSong r \<longrightarrow> processRecord h a r = Inr (a\<lparr> ignoredNonSong := ignoredNonSong a + 1 \<rparr>)) \<and>
   (badTimestamp h r \<longrightarrow>
      processRecord h a r = Inr (a\<lparr> ignoredBadTimestamp := ignoredBadTimestamp a + 1 \<rparr>)) \<and>
   (accepted h r \<and> \<not> throwsTypeError (ms_played r) \<longrightarrow>
      (\<exists>a'. processRecord h a r = Inr a' \<and> songRecordsUsed a' = songRecordsUsed a + 1))"
proof -
  from assms have b: "buildReport h rs = Inr (reportOf h rs)"
    by (simp add: buildReport_reportOf)
  have used: "rp_songRecordsUsed (reportOf h rs) = acceptedCount h rs"
    by (simp add: report_counters passOf_counters)
  have empty: "acceptedCount h [] = 0" by (simp add: acceptedCount_def)
  have run: "(isl (processRecords h rs) \<longleftrightarrow> acceptedCount h rs = 0) \<and>
   (processRecords h rs = Inl NoSongRecords \<longleftrightarrow> rs \<noteq> [] \<and> acceptedCount h rs = 0) \<and>
   (processRecords h rs = Inl NoValidRecords \<longleftrightarrow> rs = []) \<and>
   (acceptedCount h rs \<noteq> 0 \<longrightarrow>
      (\<exists>rep. buildReport h rs = Inr rep \<and> processRecords h rs = Inr rep))"
  proof (cases "rs = []")
    case True
    then show ?thesis by (simp add: processRecords_def empty)
  next
    case False
    then show ?thesis using used by (simp add: processRecords_def b)
  qed
  have counters: "\<exists>rep. buildReport h rs = Inr rep \<and>
      rp_songRecordsUsed rep = acceptedCount h rs \<and>
      rp_ignoredNonSong rep = int (length (filter nonSong rs)) \<and>
      rp_ignoredBadTimestamp rep = int (length (filter (badTimestamp h) rs))"
    using b by (simp add: report_counters passOf_counters)
  have skip1: "nonSong r \<longrightarrow>
      processRecord h a r = Inr (a\<lparr> ignoredNonSong := ignoredNonSong a + 1 \<rparr>)"
    by (simp add: nonSong_def processRecord_def)
  have skip2: "badTimestamp h r \<longrightarrow>
      processRecord h a r = Inr (a\<lparr> ignoredBadTimestamp := ignoredBadTimestamp a + 1 \<rparr>)"
    by (simp add: badTimestamp_def processRecord_def)
  have use: "accepted h r \<and> \<not> throwsTypeError (ms_played r) \<longrightarrow>
      (\<exists>a'. processRecord h a r = Inr a' \<and> songRecordsUsed a' = songRecordsUsed a + 1)"
    using step_counters [of h a r] by (simp add: processRecord_step throwing_def)
  from run counters skip1 skip2 use show ?thesis by blast
qed

theorem fatal_iff_no_accepted_event_witness:
  "processRecords exampleHost [exampleRecord ''P'' ''H'' ''E'' ''2023-05'' 500 False]
     = Inl NoSongRecords \<and>
   acceptedCount exampleHost [exampleRecord ''P'' ''H'' ''E'' ''2023-05'' 500 False] = 0 \<and>
   acceptedCount exampleHost exampleRecords = 3 \<and>
   (\<exists>rep. buildReport exampleHost exampleRecords = Inr rep \<and>
      processRecords exampleHost exampleRecords = Inr rep) \<and>
   \<not> isl (processRecords exampleHost exampleRecords)"
proof -
  let ?p = "[exampleRecord ''P'' ''H'' ''E'' ''2023-05'' 500 False]"
  have np: "\<not> list_ex (throwing exampleHost) ?p"
    by (simp add: throwing_def exampleRecord_def)
  have "songRecordsUsed (passOf exampleHost ?p) = 0"
    by (simp add: passOf_def ex_proc initAcc_def)
  then have a0: "acceptedCount exampleHost ?p = 0"
    by (simp add: passOf_counters)
  have "songRecordsUsed (passOf exampleHost exampleRecords) = 3"
    by (simp add: passOf_def exampleRecords_def ex_proc accumulate_counters initAcc_def)
  then have a3: "acceptedCount exampleHost exampleRecords = 3"
    by (simp add: passOf_counters)
  have ne: "?p \<noteq> []" by simp
  from a0 ne fatal_iff_no_accepted_event [OF np]
  have 1: "processRecords exampleHost ?p = Inl NoSongRecords" by blast
  from a3 fatal_iff_no_accepted_event [OF ex_nothrow]
  have 2: "\<exists>rep. buildReport exampleHost exampleRecords = Inr rep \<and>
      processRecords exampleHost exampleRecords = Inr rep"
    "\<not> isl (processRecords exampleHost exampleRecords)"
    by simp_all
  from 1 2 a0 a3 show ?thesis by simp
qed

text \<open>
  C6. With a host collation that is a consistent comparison function, the song table of
  a report is ordered by the chain \<open>playCountOrder\<close> (play count descending, then total
  milliseconds descending, then skip count descending, then artist ascending, then song
  ascending, the strings under the collation of the host); the top ten by play count are
  the first ten rows of the song table, at most ten, in the same order.
\<close>

theorem songRows_ordered_top10_prefix:
  assumes "consistentCmp (localeCompare h)" and "buildReport h rs = Inr rep"
  shows "sorted_wrt (playCountOrder h) (songRows rep) \<and>
         sorted_wrt (playCountOrder h) (top10ByPlayCount rep) \<and>
         length (top10ByPlayCount rep) \<le> 10 \<and>
         top10ByPlayCount rep = take 10 (songRows rep) \<and>
         prefix (top10ByPlayCount rep) (songRows rep)"
proof -
  from assms(2) have rep: "rep = reportOf h rs" by (simp add: buildReport_Inr)
  let ?cmp = "compareSongsByPlayCount h"
  let ?rows = "jsSort ?cmp (map (toSongRow \<circ> snd) (songMap (passOf h rs)))"
  have rows: "songRows (reportOf h rs) = ?rows"
    by (simp add: reportOf_def finalize_def Let_def)
  have top: "top10ByPlayCount (reportOf h rs) = take 10 (jsSort ?cmp ?rows)"
    by (simp add: reportOf_def finalize_def Let_def)
  have ord: "playCountOrder h = (\<lambda>a b. ?cmp a b \<le> 0)"
    by (intro ext) (simp add: playCountOrder_iff)
  have c: "consistentCmp ?cmp"
    using assms(1) by (rule consistent_compareSongsByPlayCount)
  have s: "sorted_wrt (\<lambda>a b. ?cmp a b \<le> 0) ?rows"
    using c by (rule sorted_jsSort)
  then have again: "jsSort ?cmp ?rows = ?rows" by (rule jsSort_sorted)
  have t: "top10ByPlayCount (reportOf h rs) = take 10 (songRows (reportOf h rs))"
    by (simp only: top again rows)
  have s10: "sorted_wrt (\<lambda>a b. ?cmp a b \<le> 0) (take 10 ?rows)"
    using s by (rule sorted_wrt_take)
  show ?thesis
    unfolding rep t unfolding rows ord
    using s s10 by (simp add: take_is_prefix)
qed

theorem songRows_ordered_top10_prefix_witness:
  "consistentCmp (localeCompare exampleHost) \<and>
   (\<exists>rep. buildReport exampleHost exampleRecords = Inr rep \<and>
      map (\<lambda>row. (sr_song row, sr_playCount row, sr_totalMs row)) (songRows rep)
        = [(js ''Y'', 2, 700), (js ''X'', 1, 1000)] \<and>
      sorted_wrt (playCountOrder exampleHost) (songRows rep) \<and>
      top10ByPlayCount rep = take 10 (songRows rep))"
proof -
  let ?rep = "reportOf exampleHost exampleRecords"
  have ev: "map (\<lambda>row. (sr_song row, sr_playCount row, sr_totalMs row)) (songRows ?rep)
     = [(js ''Y'', 2, 700), (js ''X'', 1, 1000)]"
    by (simp add: report_fields(5) passOf_def exampleRecords_def ex_proc
        accumulate_def ex_month initAcc_def makeSongKey_def KEY_SEP_def getOr_def mapGet_def
        newSong_def updateSong_def skipInc_def incrementCounter_def js_def Let_def
        jsSort_def toSongRow_def compareSongsByPlayCount_def orElse_def)
  from songRows_ordered_top10_prefix [OF consistent_exampleHost ex_report]
  have "sorted_wrt (playCountOrder exampleHost) (songRows ?rep)"
    "top10ByPlayCount ?rep = take 10 (songRows ?rep)"
    by simp_all
  with ev ex_report consistent_exampleHost show ?thesis
    by (intro conjI exI [of _ ?rep])
qed

text \<open>
  C8, as stated, fails. Two songs whose composite keys are the same string (the name of
  one holds the separator U+001F) are aggregated as one song, and the row keeps the song
  and the artist of the first. The song \<open>A\<close>, U+001F, \<open>B\<close> by \<open>C\<close> is played once, from the
  album \<open>X\<close>; the song \<open>A\<close> by \<open>B\<close>, U+001F, \<open>C\<close> is played twice, from the album \<open>Y\<close>.
  The one row of the report is the first song with the album \<open>Y\<close>, which none of its
  events holds.
\<close>

theorem representative_counterexample:
  "map_sum id (map sr_song \<circ> songRows) (buildReport exampleHost
      [albumRecord [0x41, 0x1F, 0x42] [0x43] ''X'', albumRecord [0x41] [0x42, 0x1F, 0x43] ''Y'',
       albumRecord [0x41] [0x42, 0x1F, 0x43] ''Y'']) = Inr [[0x41, 0x1F, 0x42]] \<and>
   map_sum id (map sr_artist \<circ> songRows) (buildReport exampleHost
      [albumRecord [0x41, 0x1F, 0x42] [0x43] ''X'', albumRecord [0x41] [0x42, 0x1F, 0x43] ''Y'',
       albumRecord [0x41] [0x42, 0x1F, 0x43] ''Y'']) = Inr [[0x43]] \<and>
   map_sum id (map sr_album \<circ> songRows) (buildReport exampleHost
      [albumRecord [0x41, 0x1F, 0x42] [0x43] ''X'', albumRecord [0x41] [0x42, 0x1F, 0x43] ''Y'',
       albumRecord [0x41] [0x42, 0x1F, 0x43] ''Y'']) = Inr [js ''Y''] \<and>
   map ev_album (pairEvents exampleHost
      [albumRecord [0x41, 0x1F, 0x42] [0x43] ''X'', albumRecord [0x41] [0x42, 0x1F, 0x43] ''Y'',
       albumRecord [0x41] [0x42, 0x1F, 0x43] ''Y''] [0x41, 0x1F, 0x42] [0x43]) = [js ''X'']"
  by (simp only: buildReport_reportOf album_nothrow if_False map_sum.simps o_apply album_rows
      album_events simp_thms)

text \<open>
  C8, amended. The album and the track URI of a row of the song table are the
  representatives of the albums and of the URIs of the accepted events that share the
  row's composite key, taken in input order and fed to \<open>incrementCounter\<close> (\<open>observe\<close>);
  when no two songs of the input collide on their key, these are the events of the row's
  song and artist. The representative of the observed values is the empty string when no
  non-empty value was observed. Otherwise it is a non-empty observed value that no
  non-empty value outnumbers, and every non-empty value first seen before it occurs
  strictly less often: among the values with the highest count the first seen wins.
\<close>

theorem representative_most_frequent_first_seen:
  "(\<forall>rep row. buildReport h rs = Inr rep \<and> row \<in> set (songRows rep) \<longrightarrow>
      sr_album row = mostCommonCounterKey
        (observe (map ev_album (songEvents h rs (makeSongKey (sr_song row) (sr_artist row))))) \<and>
      sr_uri row = mostCommonCounterKey
        (observe (map ev_uri (songEvents h rs (makeSongKey (sr_song row) (sr_artist row))))) \<and>
      (songKeysInjective h rs \<longrightarrow>
         songEvents h rs (makeSongKey (sr_song row) (sr_artist row))
           = pairEvents h rs (sr_song row) (sr_artist row))) \<and>
   ((\<forall>v \<in> set vs. v = []) \<longrightarrow> mostCommonCounterKey (observe vs) = []) \<and>
   ((\<exists>v \<in> set vs. v \<noteq> []) \<longrightarrow>
      (\<exists>p q. vs = p @ mostCommonCounterKey (observe vs) # q \<and>
           mostCommonCounterKey (observe vs) \<noteq> [] \<and>
           mostCommonCounterKey (observe vs) \<notin> set p \<and>
           (\<forall>v. v \<noteq> [] \<longrightarrow>
              count_list vs v \<le> count_list vs (mostCommonCounterKey (observe vs))) \<and>
           (\<forall>v \<in> set p. v \<noteq> [] \<longrightarrow>
              count_list vs v < count_list vs (mostCommonCounterKey (observe vs)))))"
proof -
  have "sr_album row = mostCommonCounterKey
        (observe (map ev_album (songEvents h rs (makeSongKey (sr_song row) (sr_artist row))))) \<and>
      sr_uri row = mostCommonCounterKey
        (observe (map ev_uri (songEvents h rs (makeSongKey (sr_song row) (sr_artist row))))) \<and>
      (songKeysInjective h rs \<longrightarrow>
         songEvents h rs (makeSongKey (sr_song row) (sr_artist row))
           = pairEvents h rs (sr_song row) (sr_artist row))"
    if a: "buildReport h rs = Inr rep \<and> row \<in> set (songRows rep)" for rep row
  proof -
    from a have rep: "rep = reportOf h rs" by (simp add: buildReport_Inr)
    with a have row: "row \<in> set (songRows (reportOf h rs))" by simp
    from song_row_representative [OF row] song_row_events [OF row]
    show ?thesis by blast
  qed
  with observed_representative [of vs] show ?thesis by blast
qed

theorem representative_most_frequent_first_seen_witness:
  "mostCommonCounterKey (observe [js ''B'', [], js ''A'', js ''A'', js ''B'']) = js ''B'' \<and>
   mostCommonCounterKey (observe [[], []]) = [] \<and>
   (\<exists>p q. [js ''B'', [], js ''A'', js ''A'', js ''B''] = p @ js ''B'' # q \<and> js ''B'' \<notin> set p) \<and>
   (\<exists>rep. buildReport exampleHost exampleRecords = Inr rep \<and>
      map (\<lambda>row. (sr_song row, sr_album row)) (songRows rep) = [(js ''Y'', []), (js ''X'', [])] \<and>
      list_all (\<lambda>row. sr_album row = mostCommonCounterKey (observe (map ev_album
          (pairEvents exampleHost exampleRecords (sr_song row) (sr_artist row))))) (songRows rep))"
proof -
  let ?vs = "[js ''B'', [], js ''A'', js ''A'', js ''B'']"
  let ?rep = "reportOf exampleHost exampleRecords"
  have ev: "mostCommonCounterKey (observe ?vs) = js ''B''"
    by (simp add: mostCommonCounterKey_def observe_def incrementCounter_def getOr_def
        mapGet_def js_def)
  have h1: "\<exists>v \<in> set ?vs. v \<noteq> []" by (simp add: js_def)
  have h2: "\<forall>v \<in> set [[], [] :: jsstring]. v = []" by simp
  from representative_most_frequent_first_seen [where vs = "?vs"] h1
  obtain p q where "?vs = p @ mostCommonCounterKey (observe ?vs) # q"
    "mostCommonCounterKey (observe ?vs) \<notin> set p"
    by blast
  then have 1: "\<exists>p q. ?vs = p @ js ''B'' # q \<and> js ''B'' \<notin> set p"
    unfolding ev by blast
  from representative_most_frequent_first_seen [where vs = "[[], []]"] h2
  have 2: "mostCommonCounterKey (observe [[], []]) = []" by blast
  have "\<forall>r \<in> set exampleRecords. 0x1F \<notin> set (cleanString (master_metadata_track_name r))"
    by (simp add: exampleRecords_def exampleRecord_def cleanString_def trim_def js_def
        isWhiteSpace_def)
  then have inj: "songKeysInjective exampleHost exampleRecords"
    by (rule no_separator_injective)
  have "sr_album row = mostCommonCounterKey (observe (map ev_album
          (pairEvents exampleHost exampleRecords (sr_song row) (sr_artist row))))"
    if "row \<in> set (songRows ?rep)" for row
  proof -
    from representative_most_frequent_first_seen [of exampleHost exampleRecords "[]"]
      ex_report that
    have "sr_album row = mostCommonCounterKey (observe (map ev_album
          (songEvents exampleHost exampleRecords (makeSongKey (sr_song row) (sr_artist row)))))"
      and "songKeysInjective exampleHost exampleRecords \<longrightarrow>
         songEvents exampleHost exampleRecords (makeSongKey (sr_song row) (sr_artist row))
           = pairEvents exampleHost exampleRecords (sr_song row) (sr_artist row)"
      by blast+
    with inj show ?thesis by simp
  qed
  then have 3: "list_all (\<lambda>row. sr_album row = mostCommonCounterKey (observe (map ev_album
          (pairEvents exampleHost exampleRecords (sr_song row) (sr_artist row))))) (songRows ?rep)"
    by (simp add: list_all_iff)
  have 4: "map (\<lambda>row. (sr_song row, sr_album row)) (songRows ?rep) = [(js ''Y'', []), (js ''X'', [])]"
    by (simp add: report_fields(5) passOf_def exampleRecords_def ex_proc
        accumulate_def ex_month initAcc_def makeSongKey_def KEY_SEP_def getOr_def mapGet_def
        newSong_def updateSong_def skipInc_def incrementCounter_def mostCommonCounterKey_def
        js_def Let_def jsSort_def toSongRow_def compareSongsByPlayCount_def orElse_def)
  from ev 1 2 3 4 ex_report show ?thesis
    by (intro conjI exI [of _ ?rep])
qed




end
